theory Spec2Isabelle
  imports Complex_Main
begin

section \<open>Strings\<close>

text \<open>
  A Python \<open>str\<close> is a sequence of Unicode code points; \<open>len\<close>, slicing and
  \<open>split\<close> count code points. A string is therefore a list of code points, and a
  literal outside ASCII is written as the list of its code points.
\<close>

type_synonym ustring = "nat list"

definition ascii :: "string \<Rightarrow> ustring" where
  "ascii s = map of_char s"

definition newline :: nat where
  "newline = 0x0A"

definition colon :: nat where
  "colon = 0x3A"

text \<open>
  \<open>str.strip()\<close> without arguments, and \<open>\s\<close> in a \<open>str\<close> pattern of \<open>re\<close>, both
  test a code point with CPython's \<open>Py_UNICODE_ISSPACE\<close>, which holds of exactly these.
\<close>

definition is_space :: "nat \<Rightarrow> bool" where
  "is_space c \<longleftrightarrow>
     (0x09 \<le> c \<and> c \<le> 0x0D) \<or> (0x1C \<le> c \<and> c \<le> 0x20) \<or> c = 0x85 \<or> c = 0xA0
     \<or> c = 0x1680 \<or> (0x2000 \<le> c \<and> c \<le> 0x200A) \<or> c = 0x2028 \<or> c = 0x2029
     \<or> c = 0x202F \<or> c = 0x205F \<or> c = 0x3000"

definition lstrip :: "ustring \<Rightarrow> ustring" where
  "lstrip s = dropWhile is_space s"

definition rstrip :: "ustring \<Rightarrow> ustring" where
  "rstrip s = rev (dropWhile is_space (rev s))"

definition strip :: "ustring \<Rightarrow> ustring" where
  "strip s = rstrip (lstrip s)"

text \<open>\<open>s.strip(chars)\<close>: code points of \<open>chars\<close> are removed from both ends.\<close>

definition strip_chars :: "ustring \<Rightarrow> ustring \<Rightarrow> ustring" where
  "strip_chars chars s =
     rev (dropWhile (\<lambda>c. c \<in> set chars) (rev (dropWhile (\<lambda>c. c \<in> set chars) s)))"

text \<open>\<open>s.split(sep)\<close> for a separator of one code point.\<close>

fun split_on :: "nat \<Rightarrow> ustring \<Rightarrow> ustring list" where
  "split_on sep [] = [[]]"
| "split_on sep (c # cs) =
     (if c = sep then [] # split_on sep cs
      else (case split_on sep cs of
              [] \<Rightarrow> [[c]]
            | w # ws \<Rightarrow> (c # w) # ws))"

text \<open>\<open>s.startswith(p)\<close>\<close>

fun startswith :: "ustring \<Rightarrow> ustring \<Rightarrow> bool" where
  "startswith s [] = True"
| "startswith [] (p # ps) = False"
| "startswith (c # cs) (p # ps) = (c = p \<and> startswith cs ps)"

text \<open>\<open>k in s\<close> for two strings: \<open>k\<close> occurs in \<open>s\<close> as a substring.\<close>

fun contains :: "ustring \<Rightarrow> ustring \<Rightarrow> bool" where
  "contains [] k = (k = [])"
| "contains (c # cs) k = (startswith (c # cs) k \<or> contains cs k)"

text \<open>\<open>str(n)\<close> for a natural number, as an f-string formats it.\<close>

fun str_nat :: "nat \<Rightarrow> ustring" where
  "str_nat n = (if n < 10 then [48 + n] else str_nat (n div 10) @ [48 + n mod 10])"

declare str_nat.simps [simp del]

text \<open>
  \<open>str.lower()\<close> is Python's full Unicode lower-casing and is not part of the
  repository: the functions that call it take it as the parameter \<open>lower\<close>. The
  following \<open>lower_basic\<close> lower-cases the Basic Latin and the Cyrillic capital letters
  (the alphabets of the label keywords) and is used for concrete inputs only.
\<close>

definition lower_basic :: "ustring \<Rightarrow> ustring" where
  "lower_basic s =
     map (\<lambda>c. if (0x41 \<le> c \<and> c \<le> 0x5A) \<or> (0x410 \<le> c \<and> c \<le> 0x42F) then c + 32
              else if 0x400 \<le> c \<and> c \<le> 0x40F then c + 80 else c) s"

section \<open>Decoded JSON values\<close>

text \<open>
  A value decoded by \<open>json\<close>. A number is an \<open>int\<close> or a \<open>float\<close>; a \<open>float\<close> is
  represented by the real number it denotes. An object is the list of its members in the
  order of the document.
\<close>

datatype json =
  JNull
  | JBool bool
  | JInt int
  | JFloat real
  | JStr ustring
  | JArr "json list"
  | JObj "(ustring \<times> json) list"

text \<open>Python's truth value of a decoded value, as \<open>or\<close> tests it.\<close>

fun truthy :: "json \<Rightarrow> bool" where
  "truthy JNull = False"
| "truthy (JBool b) = b"
| "truthy (JInt i) = (i \<noteq> 0)"
| "truthy (JFloat x) = (x \<noteq> 0)"
| "truthy (JStr s) = (s \<noteq> [])"
| "truthy (JArr xs) = (xs \<noteq> [])"
| "truthy (JObj members) = (members \<noteq> [])"

text \<open>\<open>a or b\<close>\<close>

definition py_or :: "json \<Rightarrow> json \<Rightarrow> json" where
  "py_or a b = (if truthy a then a else b)"

text \<open>
  \<open>d.get(key)\<close> on a dict given by its members: the last member with that key counts,
  and a missing key gives \<open>None\<close>.
\<close>

definition dict_get :: "(ustring \<times> json) list \<Rightarrow> ustring \<Rightarrow> json" where
  "dict_get members key = (case map_of (rev members) key of None \<Rightarrow> JNull | Some v \<Rightarrow> v)"



section \<open>The model client: \<open>ResearchProcessor._call_deepseek\<close>\<close>

text \<open>
  An exception is represented by its \<open>str(e)\<close> text.
\<close>

datatype exc = Exc ustring

text \<open>
  What one pass through the body of the \<open>try\<close> block meets:
  \<^item> \<open>Overloaded\<close>: \<open>client.post\<close> answers with status code 503;
  \<^item> \<open>Answered t\<close>: the response passes \<open>raise_for_status()\<close> and \<open>json()\<close>, and
    \<open>_extract_generated_text\<close> yields \<open>t\<close>;
  \<^item> \<open>Failed e\<close>: \<open>client.post\<close>, \<open>raise_for_status()\<close>, \<open>json()\<close> or the extraction
    raises \<open>e\<close>.
  The network is a list of such outcomes, one per request sent. The loop hands \<open>t\<close> on
  without looking at it, so its type is left open: it is a string where the function is
  followed on texts, and a decoded JSON value in the stage functions, where a value
  that is not a string takes a different path.
\<close>

datatype 'a http_outcome = Overloaded | Answered 'a | Failed exc

text \<open>
  How the call ends: it returns a text, raises, falls out of the \<open>while\<close> loop (and
  Python returns \<open>None\<close>), or is still looping when the list of outcomes is used up.
\<close>

datatype 'a call_result = Returned 'a | Raised exc | ReturnedNone | Running

definition max_retries :: nat where
  "max_retries = 5"

text \<open>
  The \<open>while attempt < max_retries\<close> loop. The first component of the result is the list
  of the arguments of \<open>asyncio.sleep\<close>, in order.
\<close>

fun call_loop :: "nat \<Rightarrow> 'a http_outcome list \<Rightarrow> nat list \<times> 'a call_result" where
  "call_loop attempt [] =
     (if attempt < max_retries then ([], Running) else ([], ReturnedNone))"
| "call_loop attempt (Overloaded # rest) =
     (if attempt < max_retries
      then (let (sleeps, r) = call_loop attempt rest in (5 # sleeps, r))
      else ([], ReturnedNone))"
| "call_loop attempt (Answered t # rest) =
     (if attempt < max_retries then ([], Returned t) else ([], ReturnedNone))"
| "call_loop attempt (Failed e # rest) =
     (if attempt < max_retries
      then (let attempt' = attempt + 1 in
            if attempt' \<ge> max_retries then ([], Raised e)
            else (let (sleeps, r) = call_loop attempt' rest in (2 ^ attempt' # sleeps, r)))
      else ([], ReturnedNone))"

definition call_deepseek :: "'a http_outcome list \<Rightarrow> nat list \<times> 'a call_result" where
  "call_deepseek outcomes = call_loop 0 outcomes"


section \<open>Report content: \<open>extract_report_content\<close>\<close>

text \<open>
  \<open>return response_text or "..."\<close>: the argument is a string or \<open>None\<close>; both \<open>None\<close>
  and the empty string are falsy.
\<close>

definition report_error_placeholder :: ustring where
  "report_error_placeholder =
     [0x41e, 0x448, 0x438, 0x431, 0x43a, 0x430, 0x20, 0x43f, 0x440, 0x438, 0x20,
      0x433, 0x435, 0x43d, 0x435, 0x440, 0x430, 0x446, 0x438, 0x438, 0x20,
      0x43e, 0x442, 0x447, 0x435, 0x442, 0x430]"

definition extract_report_content :: "ustring option \<Rightarrow> ustring" where
  "extract_report_content response_text =
     (case response_text of
        None \<Rightarrow> report_error_placeholder
      | Some t \<Rightarrow> (if t = [] then report_error_placeholder else t))"


section \<open>Company extraction: \<open>extract_companies_from_text\<close>\<close>

text \<open>
  \<open>current_company\<close> is a dict whose keys are among \<open>name\<close>, \<open>website\<close>, \<open>country\<close>,
  \<open>characteristics\<close> and \<open>links\<close>: a record of optional fields, where \<open>None\<close> means that
  the key is absent. The empty dict, which is falsy, is \<open>empty_company\<close>.
\<close>

record company =
  name :: "ustring option"
  website :: "ustring option"
  country :: "ustring option"
  characteristics :: "ustring option"
  links :: "ustring list option"

definition empty_company :: company where
  "empty_company = \<lparr>name = None, website = None, country = None,
     characteristics = None, links = None\<rparr>"

definition name_keywords :: "ustring list" where
  "name_keywords =
     [[0x43a, 0x43e, 0x43c, 0x43f, 0x430, 0x43d, 0x438, 0x44f, 0x3a],
      ascii ''company:'',
      [0x43d, 0x430, 0x437, 0x432, 0x430, 0x43d, 0x438, 0x435, 0x3a],
      ascii ''name:'',
      [0x43f, 0x440, 0x43e, 0x434, 0x443, 0x43a, 0x442, 0x3a],
      ascii ''product:'']"

definition website_keywords :: "ustring list" where
  "website_keywords =
     [[0x441, 0x430, 0x439, 0x442, 0x3a], ascii ''website:'', ascii ''url:'']"

definition country_keywords :: "ustring list" where
  "country_keywords =
     [[0x441, 0x442, 0x440, 0x430, 0x43d, 0x430, 0x3a], ascii ''country:'']"

definition characteristics_keywords :: "ustring list" where
  "characteristics_keywords =
     [[0x445, 0x430, 0x440, 0x430, 0x43a, 0x442, 0x435, 0x440, 0x438, 0x441, 0x442,
       0x438, 0x43a, 0x438, 0x3a],
      ascii ''characteristics:'']"

text \<open>\<open>any(keyword in line.lower() for keyword in keywords)\<close>\<close>

definition any_keyword :: "(ustring \<Rightarrow> ustring) \<Rightarrow> ustring list \<Rightarrow> ustring \<Rightarrow> bool" where
  "any_keyword lower keywords line =
     list_ex (\<lambda>keyword. contains (lower line) keyword) keywords"

text \<open>\<open>line.split(':', 1)[1].strip() if ':' in line else line\<close>\<close>

definition label_value :: "ustring \<Rightarrow> ustring" where
  "label_value line =
     (if colon \<in> set line then strip (tl (dropWhile (\<lambda>c. c \<noteq> colon) line)) else line)"

text \<open>
  One pass through the body of \<open>for line in lines\<close>, on the state
  \<open>(companies, current_company)\<close>.
\<close>

definition company_step ::
  "(ustring \<Rightarrow> ustring) \<Rightarrow> company list \<times> company \<Rightarrow> ustring \<Rightarrow> company list \<times> company" where
  "company_step lower st raw =
     (let companies = fst st; current_company = snd st; line = strip raw in
      if line = [] then
        (if current_company \<noteq> empty_company
         then (companies @ [current_company], empty_company)
         else (companies, current_company))
      else if any_keyword lower name_keywords line then
        ((if current_company \<noteq> empty_company then companies @ [current_company]
          else companies),
         empty_company\<lparr>name := Some (label_value line)\<rparr>)
      else if any_keyword lower website_keywords line then
        (companies,
         if current_company \<noteq> empty_company
         then current_company\<lparr>website := Some (label_value line)\<rparr>
         else current_company)
      else if any_keyword lower country_keywords line then
        (companies,
         if current_company \<noteq> empty_company
         then current_company\<lparr>country := Some (label_value line)\<rparr>
         else current_company)
      else if any_keyword lower characteristics_keywords line then
        (companies,
         if current_company \<noteq> empty_company
         then current_company\<lparr>characteristics := Some (label_value line)\<rparr>
         else current_company)
      else if startswith line (ascii ''http'') then
        (companies,
         if current_company \<noteq> empty_company
         then current_company\<lparr>links :=
                Some ((case links current_company of None \<Rightarrow> [] | Some ls \<Rightarrow> ls) @ [line])\<rparr>
         else current_company)
      else (companies, current_company))"

definition extract_companies_from_text ::
  "(ustring \<Rightarrow> ustring) \<Rightarrow> ustring \<Rightarrow> company list" where
  "extract_companies_from_text lower text =
     (let st = foldl (company_step lower) ([], empty_company) (split_on newline text);
          companies = fst st; current_company = snd st
      in if current_company \<noteq> empty_company then companies @ [current_company]
         else companies)"

subsection \<open>The extraction described by blocks\<close>

text \<open>
  The kind of a stripped, non-empty line, in the order in which the \<open>if\<close>/\<open>elif\<close> chain
  tests it.
\<close>

definition is_name_line :: "(ustring \<Rightarrow> ustring) \<Rightarrow> ustring \<Rightarrow> bool" where
  "is_name_line lower line \<longleftrightarrow> any_keyword lower name_keywords line"

definition is_website_line :: "(ustring \<Rightarrow> ustring) \<Rightarrow> ustring \<Rightarrow> bool" where
  "is_website_line lower line \<longleftrightarrow>
     \<not> is_name_line lower line \<and> any_keyword lower website_keywords line"

definition is_country_line :: "(ustring \<Rightarrow> ustring) \<Rightarrow> ustring \<Rightarrow> bool" where
  "is_country_line lower line \<longleftrightarrow>
     \<not> is_name_line lower line \<and> \<not> is_website_line lower line
     \<and> any_keyword lower country_keywords line"

definition is_characteristics_line :: "(ustring \<Rightarrow> ustring) \<Rightarrow> ustring \<Rightarrow> bool" where
  "is_characteristics_line lower line \<longleftrightarrow>
     \<not> is_name_line lower line \<and> \<not> is_website_line lower line
     \<and> \<not> is_country_line lower line \<and> any_keyword lower characteristics_keywords line"

definition is_link_line :: "(ustring \<Rightarrow> ustring) \<Rightarrow> ustring \<Rightarrow> bool" where
  "is_link_line lower line \<longleftrightarrow>
     \<not> is_name_line lower line \<and> \<not> is_website_line lower line
     \<and> \<not> is_country_line lower line \<and> \<not> is_characteristics_line lower line
     \<and> startswith line (ascii ''http'')"

text \<open>A raw line opens a new record: it is not blank and holds a company label.\<close>

definition opens_record :: "(ustring \<Rightarrow> ustring) \<Rightarrow> ustring \<Rightarrow> bool" where
  "opens_record lower raw \<longleftrightarrow> strip raw \<noteq> [] \<and> is_name_line lower (strip raw)"

definition last_label :: "ustring list \<Rightarrow> ustring option" where
  "last_label ls = (if ls = [] then None else Some (label_value (last ls)))"

text \<open>
  The record that a block of lines describes: the name from its first line; website,
  country and characteristics from the last line of that kind, absent when there is none;
  the link lines in order, absent when there is none.
\<close>

definition block_record :: "(ustring \<Rightarrow> ustring) \<Rightarrow> ustring list \<Rightarrow> company" where
  "block_record lower block =
     (let first = strip (hd block); rest = map strip (tl block) in
      \<lparr>name = Some (label_value first),
       website = last_label (filter (is_website_line lower) rest),
       country = last_label (filter (is_country_line lower) rest),
       characteristics = last_label (filter (is_characteristics_line lower) rest),
       links = (if filter (is_link_line lower) rest = [] then None
                else Some (filter (is_link_line lower) rest))\<rparr>)"

text \<open>
  A company block: lines without line breaks, none of them blank, the first one with a
  company label and no other one with a company label.
\<close>

definition company_block :: "(ustring \<Rightarrow> ustring) \<Rightarrow> ustring list \<Rightarrow> bool" where
  "company_block lower block \<longleftrightarrow>
     block \<noteq> [] \<and> list_all (\<lambda>l. newline \<notin> set l \<and> strip l \<noteq> []) block
     \<and> is_name_line lower (strip (hd block))
     \<and> list_all (\<lambda>l. \<not> is_name_line lower (strip l)) (tl block)"

text \<open>
  A blank line, which ends a block: it has no line break, and nothing is left of it
  after \<open>strip\<close>.
\<close>

definition blank_line :: "ustring \<Rightarrow> bool" where
  "blank_line l \<longleftrightarrow> newline \<notin> set l \<and> strip l = []"

text \<open>The text whose lines are \<open>ls\<close>: the lines joined by line breaks.\<close>

fun join_lines :: "ustring list \<Rightarrow> ustring" where
  "join_lines [] = []"
| "join_lines [l] = l"
| "join_lines (l # l' # ls) = l @ newline # join_lines (l' # ls)"

text \<open>The records of a state when the text ends there: an open record is closed.\<close>

definition closed :: "company list \<times> company \<Rightarrow> company list" where
  "closed st = (if snd st \<noteq> empty_company then fst st @ [snd st] else fst st)"

text \<open>The record after the lines \<open>rest\<close> (stripped) were applied to the record \<open>cur\<close>.\<close>

definition after_lines :: "(ustring \<Rightarrow> ustring) \<Rightarrow> company \<Rightarrow> ustring list \<Rightarrow> company" where
  "after_lines lower cur rest =
     \<lparr>name = name cur,
      website = (if filter (is_website_line lower) rest = [] then website cur
                 else last_label (filter (is_website_line lower) rest)),
      country = (if filter (is_country_line lower) rest = [] then country cur
                 else last_label (filter (is_country_line lower) rest)),
      characteristics = (if filter (is_characteristics_line lower) rest = []
                 then characteristics cur
                 else last_label (filter (is_characteristics_line lower) rest)),
      links = (if filter (is_link_line lower) rest = [] then links cur
               else Some ((case links cur of None \<Rightarrow> [] | Some ls \<Rightarrow> ls)
                          @ filter (is_link_line lower) rest))\<rparr>"

text \<open>The number of records opened so far, and the invariant that each has a name.\<close>

definition records_started :: "company list \<times> company \<Rightarrow> nat" where
  "records_started st = length (fst st) + (if snd st \<noteq> empty_company then 1 else 0)"

definition all_named :: "company list \<times> company \<Rightarrow> bool" where
  "all_named st \<longleftrightarrow>
     list_all (\<lambda>c. name c \<noteq> None) (fst st)
     \<and> (snd st = empty_company \<or> name (snd st) \<noteq> None)"

section \<open>Market data: \<open>parse_market_data\<close>\<close>

text \<open>
  The dict returned by \<open>parse_market_data\<close>, without its \<open>timestamp\<close> entry (the clock
  is outside the model).
\<close>

record market_data =
  raw_content :: ustring
  companies :: "company list"
  research_type :: ustring
  total_found :: nat



section \<open>Progress updates and the stage functions\<close>

datatype stage_name = Data_collection | Local_documents | Case_analysis | Report_generation

datatype stage_status = Active | Completed | Error

text \<open>
  One call of \<open>send_update(stage_name, status, progress, message)\<close>; the timestamp of
  the message is left out. Sending is taken to succeed: \<open>manager.send_message\<close> is not
  in the source file.
\<close>

record update =
  stage :: stage_name
  status :: stage_status
  progress :: nat
  message :: ustring








definition msg_retry :: "nat \<Rightarrow> nat \<Rightarrow> ustring" where
  "msg_retry k n =
     [0x41f, 0x43e, 0x432, 0x442, 0x43e, 0x440, 0x43d, 0x430, 0x44f, 0x20, 0x43f,
      0x43e, 0x43f, 0x44b, 0x442, 0x43a, 0x430, 0x20] @ str_nat k @ [0x2f] @ str_nat n
     @ [0x2e, 0x2e, 0x2e]"













text \<open>
  How a stage function ends: it returns a value, raises, or never returns (the model
  client is still retrying).
\<close>

datatype 'a stage_end = Finished 'a | Raising exc | Unfinished





section \<open>The stage retry wrapper: \<open>_execute_with_retry\<close>\<close>

text \<open>
  What the wrapper does, in order: it sends an update, it sleeps, or it calls the
  stage function (for the attempt of the given number).
\<close>

datatype event = Update update | Sleep nat | Invoke nat

text \<open>The dict \<open>{"success": False, "error": ..., "error_details": ...}\<close>.\<close>

record failure =
  success :: bool
  error :: ustring
  error_details :: ustring

datatype 'a retry_result = Value 'a | Failure_object failure | Never_returns

definition stage_max_retries :: nat where
  "stage_max_retries = 3"

text \<open>\<open>str(last_exception)\<close>, where \<open>last_exception\<close> starts as \<open>None\<close>.\<close>

definition str_exception :: "exc option \<Rightarrow> ustring" where
  "str_exception last_exception =
     (case last_exception of None \<Rightarrow> ascii ''None'' | Some (Exc m) \<Rightarrow> m)"

text \<open>
  Modelled from the spec: the source file holds the head of \<open>_execute_with_retry\<close> (the
  \<open>for attempt in range(max_retries)\<close> loop, the update and the sleep of a retry, the call
  of the stage function) and breaks off there. Missing are the \<open>return\<close> of a successful
  result, the \<open>except\<close> handler and what follows the loop; after the gap the file goes on
  with the end of a function that returns the failure dict. The missing lines follow the
  spec: a result is returned at once, an exception is kept and the next attempt starts,
  and when the attempts are used up the failure dict is returned. How \<open>error_details\<close>
  is computed is missing too: it is the parameter \<open>details\<close>. The stage function is
  \<open>func\<close>, from the number of the attempt to the updates it sends and the way it ends.
\<close>

fun retry_loop ::
  "(nat \<Rightarrow> update list \<times> 'a stage_end) \<Rightarrow> stage_name \<Rightarrow> (exc option \<Rightarrow> ustring) \<Rightarrow> nat \<Rightarrow>
   nat list \<Rightarrow> exc option \<Rightarrow> event list \<times> 'a retry_result" where
  "retry_loop func sn details n [] last_exception =
     ([], Failure_object \<lparr>success = False, error = str_exception last_exception,
                          error_details = details last_exception\<rparr>)"
| "retry_loop func sn details n (attempt # attempts) last_exception =
     (let retry_events =
        (if attempt > 0
         then [Update \<lparr>stage = sn, status = Active, progress = 0,
                       message = msg_retry (attempt + 1) n\<rparr>,
               Sleep (2 ^ attempt)]
         else []);
          run = func attempt;
          events = retry_events @ Invoke attempt # map Update (fst run)
      in case snd run of
           Finished result \<Rightarrow> (events, Value result)
         | Raising e \<Rightarrow>
             (let later = retry_loop func sn details n attempts (Some e)
              in (events @ fst later, snd later))
         | Unfinished \<Rightarrow> (events, Never_returns))"

definition execute_with_retry ::
  "(nat \<Rightarrow> update list \<times> 'a stage_end) \<Rightarrow> stage_name \<Rightarrow> (exc option \<Rightarrow> ustring) \<Rightarrow>
   event list \<times> 'a retry_result" where
  "execute_with_retry func sn details =
     retry_loop func sn details stage_max_retries [0..<stage_max_retries] None"


definition is_invoke :: "event \<Rightarrow> bool" where
  "is_invoke ev = (case ev of Invoke k \<Rightarrow> True | _ \<Rightarrow> False)"

definition retry_update :: "stage_name \<Rightarrow> nat \<Rightarrow> update" where
  "retry_update sn k =
     \<lparr>stage = sn, status = Active, progress = 0, message = msg_retry k stage_max_retries\<rparr>"


section \<open>Link enhancement: \<open>enhance_report_with_links\<close>\<close>

text \<open>
  An entry of \<open>case["verified_links"]\<close>, read with \<open>link.get("status")\<close> and
  \<open>link.get("url")\<close>, and a case, read with \<open>"verified_links" in case\<close> and \<open>case.get\<close>
  for \<open>title\<close>, \<open>company\<close> and \<open>description\<close>. \<open>None\<close> stands for an absent key.
\<close>

record verified_link =
  link_url :: "ustring option"
  link_status :: "ustring option"

record research_case =
  title :: "ustring option"
  company_name :: "ustring option"
  description :: "ustring option"
  verified_links :: "verified_link list option"

text \<open>The dict appended to \<open>all_verified_links\<close>.\<close>

record candidate_link =
  candidate_url :: "ustring option"
  candidate_company :: ustring
  candidate_context :: ustring

definition candidate_of :: "research_case \<Rightarrow> verified_link \<Rightarrow> candidate_link" where
  "candidate_of c l =
     \<lparr>candidate_url = link_url l,
      candidate_company =
        (case title c of
           Some t \<Rightarrow> t
         | None \<Rightarrow> (case company_name c of Some n \<Rightarrow> n | None \<Rightarrow> ascii ''Unknown'')),
      candidate_context = (case description c of Some d \<Rightarrow> d | None \<Rightarrow> [])\<rparr>"

definition all_verified_links :: "research_case list \<Rightarrow> candidate_link list" where
  "all_verified_links cases =
     concat (map (\<lambda>c. case verified_links c of
                         None \<Rightarrow> []
                       | Some ls \<Rightarrow>
                           map (candidate_of c)
                             (filter (\<lambda>l. link_status l = Some (ascii ''working'')) ls))
                 cases)"

definition max_content_length :: nat where
  "max_content_length = 15000"

definition truncation_marker :: ustring where
  "truncation_marker =
     [0xa, 0xa, 0x5b, 0x2e, 0x2e, 0x2e, 0x20, 0x43e, 0x441, 0x442, 0x430, 0x43b, 0x44c,
      0x43d, 0x430, 0x44f, 0x20, 0x447, 0x430, 0x441, 0x442, 0x44c, 0x20, 0x43e, 0x442,
      0x447, 0x435, 0x442, 0x430, 0x20, 0x2e, 0x2e, 0x2e, 0x5d]"

text \<open>
  The prompt is an f-string with two holes: \<open>report_preview\<close> and
  \<open>json.dumps(all_verified_links[:20], ...)\<close>. It is represented by what fills them.
\<close>

record enhancement_prompt =
  report_preview :: ustring
  candidate_links :: "candidate_link list"

definition enhancement_prompt_of :: "ustring \<Rightarrow> research_case list \<Rightarrow> enhancement_prompt" where
  "enhancement_prompt_of report_content cases =
     \<lparr>report_preview =
        (if length report_content > max_content_length
         then take max_content_length report_content @ truncation_marker
         else take max_content_length report_content),
      candidate_links = take 20 (all_verified_links cases)\<rparr>"

text \<open>
  \<open>call\<close> is \<open>_call_deepseek\<close> on the prompt: how the model client ends. The result is
  \<open>None\<close> when the function does not return, because the model client does not.
\<close>

definition enhance_report_with_links ::
  "(enhancement_prompt \<Rightarrow> ustring call_result) \<Rightarrow> ustring \<Rightarrow> research_case list \<Rightarrow>
   ustring option" where
  "enhance_report_with_links call report_content cases =
     (if all_verified_links cases = [] then Some report_content
      else (case call (enhancement_prompt_of report_content cases) of
              Returned enhanced_content \<Rightarrow>
                (if enhanced_content \<noteq> [] then Some enhanced_content
                 else Some report_content)
            | ReturnedNone \<Rightarrow> Some report_content
            | Raised e \<Rightarrow> Some report_content
            | Running \<Rightarrow> None))"

definition has_working_link :: "research_case \<Rightarrow> bool" where
  "has_working_link c =
     (case verified_links c of
        None \<Rightarrow> False
      | Some ls \<Rightarrow> list_ex (\<lambda>l. link_status l = Some (ascii ''working'')) ls)"

section \<open>Insight extraction: \<open>parse_local_insights\<close>\<close>

definition unknown_pdf :: json where
  "unknown_pdf = JStr (ascii ''unknown.pdf'')"

text \<open>
  Modelled from the spec: of the dict that \<open>parse_local_insights\<close> appends for an item,
  the source file holds the entries \<open>fact\<close>, \<open>metrics\<close>, \<open>date\<close> and \<open>links\<close>; the
  entries \<open>source_file\<close>, \<open>download_link\<close> and \<open>section\<close> are in lines that are missing.
  They follow the spec (every field is normalised with a default) and the defaults of the
  line fallback. An item that is not an object has no \<open>get\<close>: the attribute error is
  \<open>None\<close>.
\<close>

fun normalize_insight :: "json \<Rightarrow> (ustring \<times> json) list option" where
  "normalize_insight (JObj item) =
     Some [(ascii ''source_file'', py_or (dict_get item (ascii ''source_file'')) unknown_pdf),
           (ascii ''download_link'', py_or (dict_get item (ascii ''download_link'')) JNull),
           (ascii ''section'', py_or (dict_get item (ascii ''section'')) (JStr [])),
           (ascii ''fact'', py_or (dict_get item (ascii ''fact'')) (JStr [])),
           (ascii ''metrics'', py_or (dict_get item (ascii ''metrics'')) JNull),
           (ascii ''date'', py_or (dict_get item (ascii ''date'')) JNull),
           (ascii ''links'', py_or (dict_get item (ascii ''links'')) (JArr []))]"
| "normalize_insight _ = None"

text \<open>\<open>for item in data: norm.append(...)\<close>; the first item that raises ends the loop.\<close>

fun normalize_items :: "json list \<Rightarrow> (ustring \<times> json) list list option" where
  "normalize_items [] = Some []"
| "normalize_items (item # items) =
     (case normalize_insight item of
        None \<Rightarrow> None
      | Some n \<Rightarrow> (case normalize_items items of None \<Rightarrow> None | Some ns \<Rightarrow> Some (n # ns)))"

definition bullet_chars :: ustring where
  "bullet_chars = [0x20, 0x2d, 0x2022, 0x2a]"

definition fallback_insight :: "ustring \<Rightarrow> (ustring \<times> json) list" where
  "fallback_insight line =
     [(ascii ''source_file'', unknown_pdf),
      (ascii ''download_link'', JNull),
      (ascii ''section'', JStr []),
      (ascii ''fact'', JStr line),
      (ascii ''metrics'', JNull),
      (ascii ''date'', JNull),
      (ascii ''links'', JArr [])]"

text \<open>The fallback loop over \<open>content_str.split('\n')\<close>.\<close>

definition fallback_insights :: "ustring \<Rightarrow> (ustring \<times> json) list list" where
  "fallback_insights content_str =
     map fallback_insight
       (filter (\<lambda>line. line \<noteq> [])
          (map (strip_chars bullet_chars) (split_on newline content_str)))"

text \<open>
  Modelled from the spec: the first lines of \<open>parse_local_insights\<close>, which decode the
  response, are missing. The parameter \<open>decode\<close> stands for them: it gives the value
  they decode, or \<open>None\<close> when they raise. As the spec says, the items of a decoded array
  are normalised, and anything else (no array, a decoding error, an item that raises)
  goes to the line fallback, which is in the source file.
\<close>

definition parse_local_insights ::
  "(ustring \<Rightarrow> json option) \<Rightarrow> ustring \<Rightarrow> (ustring \<times> json) list list" where
  "parse_local_insights decode content_str =
     (case decode content_str of
        Some (JArr data) \<Rightarrow>
          (case normalize_items data of
             Some normed \<Rightarrow> normed
           | None \<Rightarrow> fallback_insights content_str)
      | _ \<Rightarrow> fallback_insights content_str)"

definition insight_keys :: "ustring list" where
  "insight_keys =
     [ascii ''source_file'', ascii ''download_link'', ascii ''section'', ascii ''fact'',
      ascii ''metrics'', ascii ''date'', ascii ''links'']"

definition insight_default :: "ustring \<Rightarrow> json" where
  "insight_default key =
     (if key = ascii ''source_file'' then unknown_pdf
      else if key = ascii ''section'' \<or> key = ascii ''fact'' then JStr []
      else if key = ascii ''links'' then JArr []
      else JNull)"

text \<open>The normalised dict that the spec describes for an object.\<close>

definition normalized :: "(ustring \<times> json) list \<Rightarrow> (ustring \<times> json) list" where
  "normalized item =
     map (\<lambda>key. (key, if truthy (dict_get item key) then dict_get item key
                       else insight_default key)) insight_keys"

text \<open>Three responses of the model, for concrete runs.\<close>

definition example_array_text :: ustring where
  "example_array_text = [0x5b, 0x7b, 0x22, 0x66, 0x61, 0x63, 0x74, 0x22, 0x3a, 0x20, 0x22, 0x78, 0x22, 0x2c, 0x20, 0x22, 0x6d, 0x65, 0x74, 0x72, 0x69, 0x63, 0x73, 0x22, 0x3a, 0x20, 0x33, 0x7d, 0x5d]"

definition example_lines_text :: ustring where
  "example_lines_text = [0x2d, 0x20, 0x61, 0x6c, 0x70, 0x68, 0x61, 0xa, 0xa, 0x2a, 0x20, 0x62, 0x65, 0x74, 0x61, 0x20, 0x2d]"

definition example_zero_text :: ustring where
  "example_zero_text = [0x5b, 0x7b, 0x22, 0x6d, 0x65, 0x74, 0x72, 0x69, 0x63, 0x73, 0x22, 0x3a, 0x20, 0x30, 0x7d, 0x5d]"

section \<open>Whitespace cleanup after link removal\<close>

text \<open>
  The part of a run of white space up to and including its last line break; empty when
  the run has no line break.
\<close>

definition upto_last_newline :: "ustring \<Rightarrow> ustring" where
  "upto_last_newline w = rev (dropWhile (\<lambda>c. c \<noteq> newline) (rev w))"

lemma upto_last_newline_nonempty: "newline \<in> set w \<Longrightarrow> upto_last_newline w \<noteq> []"
  by (simp add: upto_last_newline_def)

text \<open>
  \<open>re.sub(r'\n\s*\n\s*\n', '\n\n', s)\<close>. At a line break, \<open>\s*\<close> can reach over the
  whole run of white space that follows, so the pattern matches when that run holds two
  more line breaks, and the match, being greedy, ends with the last line break of the
  run. The search goes on after the match.
\<close>

function collapse_blank_runs :: "ustring \<Rightarrow> ustring" where
  "collapse_blank_runs [] = []"
| "collapse_blank_runs (c # cs) =
     (if c = newline \<and> 2 \<le> length (filter (\<lambda>d. d = newline) (takeWhile is_space cs))
      then newline # newline #
           collapse_blank_runs (drop (length (upto_last_newline (takeWhile is_space cs))) cs)
      else c # collapse_blank_runs cs)"
  by pat_completeness auto
termination
  by (relation "measure length") auto

text \<open>
  \<open>re.sub(r'^\s*\n', '', s, flags=re.MULTILINE)\<close>. With \<open>re.MULTILINE\<close>, \<open>^\<close> matches at the
  start of the string and after every line break; the flag \<open>at_line_start\<close> says that the
  position is one of these. There the pattern matches when the run of white space from
  the position on holds a line break, and the match ends with the last line break of the
  run. The match is deleted and the search goes on after it.
\<close>

function remove_blank_lines :: "bool \<Rightarrow> ustring \<Rightarrow> ustring" where
  "remove_blank_lines at_line_start [] = []"
| "remove_blank_lines at_line_start (c # cs) =
     (if at_line_start \<and> newline \<in> set (takeWhile is_space (c # cs))
      then remove_blank_lines True
             (drop (length (upto_last_newline (takeWhile is_space (c # cs)))) (c # cs))
      else c # remove_blank_lines (c = newline) cs)"
  by pat_completeness auto
termination
proof (relation "measure (\<lambda>(b, s). length s)")
  show "wf (measure (\<lambda>(b, s). length s))"
    by simp
next
  fix at_line_start :: bool and c :: nat and cs :: ustring
  assume "at_line_start \<and> newline \<in> set (takeWhile is_space (c # cs))"
  then have "upto_last_newline (takeWhile is_space (c # cs)) \<noteq> []"
    by (simp add: upto_last_newline_nonempty)
  then have "0 < length (upto_last_newline (takeWhile is_space (c # cs)))"
    by simp
  then show "((True, drop (length (upto_last_newline (takeWhile is_space (c # cs)))) (c # cs)),
              (at_line_start, c # cs)) \<in> measure (\<lambda>(b, s). length s)"
    by simp
next
  fix at_line_start :: bool and c :: nat and cs :: ustring
  show "((c = newline, cs), (at_line_start, c # cs)) \<in> measure (\<lambda>(b, s). length s)"
    by simp
qed

text \<open>
  The three statements that follow the removal of the broken links in
  \<open>verify_report_links\<close>: the two substitutions and \<open>strip()\<close>.
\<close>

definition collapse_whitespace :: "ustring \<Rightarrow> ustring" where
  "collapse_whitespace s = strip (remove_blank_lines True (collapse_blank_runs s))"

text \<open>
  A text without blank lines: at no start of a line does the run of white space reach a
  line break. The flag says whether the text begins at the start of a line.
\<close>

fun no_blank_lines :: "bool \<Rightarrow> ustring \<Rightarrow> bool" where
  "no_blank_lines at_line_start [] = True"
| "no_blank_lines at_line_start (c # cs) =
     ((at_line_start \<longrightarrow> newline \<notin> set (takeWhile is_space (c # cs)))
      \<and> no_blank_lines (c = newline) cs)"

text \<open>A text that \<open>strip()\<close> leaves as it is.\<close>

definition stripped :: "ustring \<Rightarrow> bool" where
  "stripped s \<longleftrightarrow> s = [] \<or> (\<not> is_space (hd s) \<and> \<not> is_space (last s))"

section \<open>Link verification: \<open>verify_report_links\<close>\<close>

definition bracket_open :: nat where
  "bracket_open = 0x5B"

definition bracket_close :: nat where
  "bracket_close = 0x5D"

definition paren_open :: nat where
  "paren_open = 0x28"

definition paren_close :: nat where
  "paren_close = 0x29"

text \<open>
  A match of \<open>\[([^\]]+)\]\(([^)]+)\)\<close> at the start of a string: the two groups and
  what follows the match. Each class excludes the character that must follow it, so the
  greedy repetitions stop at the first \<open>]\<close> and the first \<open>)\<close>, and no shorter match exists.
\<close>

definition match_link :: "ustring \<Rightarrow> (ustring \<times> ustring \<times> ustring) option" where
  "match_link s =
     (case s of
        [] \<Rightarrow> None
      | c # cs \<Rightarrow>
          (let text = takeWhile (\<lambda>d. d \<noteq> bracket_close) cs;
               after_text = dropWhile (\<lambda>d. d \<noteq> bracket_close) cs;
               url = takeWhile (\<lambda>d. d \<noteq> paren_close) (drop 2 after_text);
               after_url = dropWhile (\<lambda>d. d \<noteq> paren_close) (drop 2 after_text)
           in if c = bracket_open \<and> text \<noteq> []
                 \<and> startswith after_text [bracket_close, paren_open]
                 \<and> url \<noteq> [] \<and> after_url \<noteq> []
              then Some (text, url, tl after_url)
              else None))"

lemma match_link_shorter: "match_link s = Some (text, url, rest) \<Longrightarrow> length rest < length s"
proof (cases s)
  case Nil
  then show "match_link s = Some (text, url, rest) \<Longrightarrow> length rest < length s"
    by (simp add: match_link_def)
next
  case (Cons c cs)
  assume "match_link s = Some (text, url, rest)"
  then have rest: "rest = tl (dropWhile (\<lambda>d. d \<noteq> paren_close)
        (drop 2 (dropWhile (\<lambda>d. d \<noteq> bracket_close) cs)))"
    using Cons by (simp add: match_link_def Let_def split: if_splits)
  have "length rest \<le> length (dropWhile (\<lambda>d. d \<noteq> paren_close)
        (drop 2 (dropWhile (\<lambda>d. d \<noteq> bracket_close) cs)))"
    by (simp add: rest)
  also have "\<dots> \<le> length (drop 2 (dropWhile (\<lambda>d. d \<noteq> bracket_close) cs))"
    by (rule length_dropWhile_le)
  also have "\<dots> \<le> length (dropWhile (\<lambda>d. d \<noteq> bracket_close) cs)"
    by simp
  also have "\<dots> \<le> length cs"
    by (rule length_dropWhile_le)
  finally show "length rest < length s"
    using Cons by simp
qed

text \<open>
  \<open>re.findall\<close> with that pattern: the matches from left to right, the search going on
  after each match, or one character further where there is none.
\<close>

function find_links :: "ustring \<Rightarrow> (ustring \<times> ustring) list" where
  "find_links [] = []"
| "find_links (c # cs) =
     (case match_link (c # cs) of
        Some (text, url, rest) \<Rightarrow> (text, url) # find_links rest
      | None \<Rightarrow> find_links cs)"
  by pat_completeness auto
termination
  by (relation "measure length") (auto dest: match_link_shorter)

text \<open>
  What the \<open>HEAD\<close> request for a link meets: a response with a status code, or an
  exception (of the request, or of the client).
\<close>

datatype head_outcome = Head_status nat | Head_raises exc

text \<open>
  The body of the loop over the links: the link goes to \<open>verified_links\<close> (\<open>True\<close>) or to
  \<open>broken_links\<close>. \<open>base_url\<close> is \<open>config.BASE_URL\<close>.
\<close>

definition link_works :: "ustring \<Rightarrow> head_outcome \<Rightarrow> ustring \<Rightarrow> bool" where
  "link_works base_url outcome url =
     (if startswith url (base_url @ ascii ''/data/'') then True
      else (case outcome of
              Head_status status_code \<Rightarrow> status_code < 400
            | Head_raises e \<Rightarrow> False))"

text \<open>
  The links with their verdicts; \<open>head i\<close> is what the request for the link number \<open>i\<close>
  of the report meets.
\<close>

definition check_links ::
  "ustring \<Rightarrow> (nat \<Rightarrow> head_outcome) \<Rightarrow> (ustring \<times> ustring) list \<Rightarrow> ((ustring \<times> ustring) \<times> bool) list"
  where
  "check_links base_url head found =
     map (\<lambda>(i, link). (link, link_works base_url (head i) (snd link))) (enumerate 0 found)"

definition markdown_span :: "ustring \<times> ustring \<Rightarrow> ustring" where
  "markdown_span link =
     [bracket_open] @ fst link @ [bracket_close, paren_open] @ snd link @ [paren_close]"

text \<open>\<open>s.replace(old, "")\<close>: the occurrences of \<open>old\<close> from left to right, without overlap.\<close>

function remove_all :: "ustring \<Rightarrow> ustring \<Rightarrow> ustring" where
  "remove_all old [] = []"
| "remove_all old (c # cs) =
     (if old \<noteq> [] \<and> startswith (c # cs) old
      then remove_all old (drop (length old) (c # cs))
      else c # remove_all old cs)"
  by pat_completeness auto
termination
  by (relation "measure (\<lambda>(old, s). length s)") auto

text \<open>
  \<open>re.sub(pattern, repl, s)\<close> for the pattern \<open>\[text\]\([^)]+\)\<close>, in which the link
  text is escaped. Here \<open>start\<close> is \<open>[text](\<close>, and a match is \<open>start\<close>, one or more
  characters other than \<open>)\<close>, and \<open>)\<close>. The replacement is expanded for each match:
  \<open>repl\<close> maps the matched text to the text put in its place.
\<close>

function rewrite_link :: "ustring \<Rightarrow> (ustring \<Rightarrow> ustring) \<Rightarrow> ustring \<Rightarrow> ustring" where
  "rewrite_link start repl [] = []"
| "rewrite_link start repl (c # cs) =
     (if startswith (c # cs) start
         \<and> takeWhile (\<lambda>d. d \<noteq> paren_close) (drop (length start) (c # cs)) \<noteq> []
         \<and> dropWhile (\<lambda>d. d \<noteq> paren_close) (drop (length start) (c # cs)) \<noteq> []
      then repl (start @ takeWhile (\<lambda>d. d \<noteq> paren_close) (drop (length start) (c # cs))
                 @ [paren_close])
           @ rewrite_link start repl
               (tl (dropWhile (\<lambda>d. d \<noteq> paren_close) (drop (length start) (c # cs))))
      else c # rewrite_link start repl cs)"
  by pat_completeness auto
termination
proof (relation "measure (\<lambda>(start, repl, s). length s)")
  show "wf (measure (\<lambda>(start, repl, s). length s))"
    by simp
next
  fix start :: ustring and repl :: "ustring \<Rightarrow> ustring" and c :: nat and cs :: ustring
  let ?after = "dropWhile (\<lambda>d. d \<noteq> paren_close) (drop (length start) (c # cs))"
  assume "startswith (c # cs) start
      \<and> takeWhile (\<lambda>d. d \<noteq> paren_close) (drop (length start) (c # cs)) \<noteq> []
      \<and> ?after \<noteq> []"
  then have "length (tl ?after) < length ?after"
    by simp
  also have "\<dots> \<le> length (drop (length start) (c # cs))"
    by (rule length_dropWhile_le)
  also have "\<dots> \<le> length (c # cs)"
    by simp
  finally show "((start, repl, tl ?after), (start, repl, c # cs))
      \<in> measure (\<lambda>(start, repl, s). length s)"
    by simp
next
  fix start :: ustring and repl :: "ustring \<Rightarrow> ustring" and c :: nat and cs :: ustring
  show "((start, repl, cs), (start, repl, c # cs)) \<in> measure (\<lambda>(start, repl, s). length s)"
    by simp
qed

text \<open>
  The loop over \<open>verified_links\<close>. \<open>re.sub\<close> reads its replacement string as a template
  with backslash escapes and group references; that is Python's, not the repository's,
  and is the parameter \<open>template\<close>: for the replacement string \<open>[text](url)\<close> it gives the
  error raised for a bad escape, or the expansion, which maps each matched text to the
  text put in its place (the pattern has no group, so a reference can only name the
  match itself). An error leaves the function through its outer \<open>except\<close>, which returns
  the report as it is at that moment.
\<close>

fun rewrite_verified ::
  "(ustring \<Rightarrow> exc + (ustring \<Rightarrow> ustring)) \<Rightarrow> (ustring \<times> ustring) list \<Rightarrow> ustring \<Rightarrow> ustring"
  where
  "rewrite_verified template [] report_content = report_content"
| "rewrite_verified template (link # verified) report_content =
     (let original_pattern = [bracket_open] @ fst link @ [bracket_close, paren_open] in
      if contains report_content original_pattern
      then (case template (markdown_span link) of
              Inl e \<Rightarrow> report_content
            | Inr replacement \<Rightarrow>
                rewrite_verified template verified
                  (rewrite_link original_pattern replacement report_content))
      else rewrite_verified template verified report_content)"

definition verify_report_links ::
  "ustring \<Rightarrow> (nat \<Rightarrow> head_outcome) \<Rightarrow> (ustring \<Rightarrow> exc + (ustring \<Rightarrow> ustring)) \<Rightarrow> ustring \<Rightarrow>
   ustring" where
  "verify_report_links base_url head template report_content =
     (let found = find_links report_content in
      if found = [] then report_content
      else
        (let checked = check_links base_url head found;
             verified_links = map fst (filter snd checked);
             broken_links = map fst (filter (\<lambda>r. \<not> snd r) checked);
             without_broken =
               (if broken_links \<noteq> []
                then collapse_whitespace
                       (foldl (\<lambda>r link. remove_all (markdown_span link) r) report_content
                          broken_links)
                else report_content)
         in rewrite_verified template verified_links without_broken))"

text \<open>A report of two paragraphs, the second with a link.\<close>

definition two_paragraph_report :: ustring where
  "two_paragraph_report = ascii ''A'' @ [10, 10] @ ascii ''B [x](http://bad)''"

section \<open>Properties of the model client\<close>

lemma call_loop_overloaded_run:
  "attempt < max_retries \<Longrightarrow>
   call_loop attempt (replicate n Overloaded @ rest) =
     (replicate n 5 @ fst (call_loop attempt rest), snd (call_loop attempt rest))"
  by (induction n) (simp_all split: prod.split)

lemma call_loop_failed_step:
  "Suc attempt < max_retries \<Longrightarrow>
   call_loop attempt (Failed e # rest) =
     (2 ^ Suc attempt # fst (call_loop (Suc attempt) rest), snd (call_loop (Suc attempt) rest))"
  by (simp split: prod.split)

lemma call_loop_overloaded_failed:
  "Suc attempt < max_retries \<Longrightarrow>
   call_loop attempt (replicate n Overloaded @ Failed e # rest) =
     (replicate n 5 @ 2 ^ Suc attempt # fst (call_loop (Suc attempt) rest),
      snd (call_loop (Suc attempt) rest))"
  by (simp add: call_loop_overloaded_run split: prod.split)

lemma call_loop_last_failure:
  "Suc attempt = max_retries \<Longrightarrow>
   call_loop attempt (replicate n Overloaded @ Failed e # rest) = (replicate n 5, Raised e)"
  by (simp add: call_loop_overloaded_run)

text \<open>
  C1. In \<open>_call_deepseek\<close>, a 503 response is followed by a sleep of 5 seconds and a new
  request with the attempt counter unchanged; any other failure adds one to the attempt
  counter and, while the counter is below 5, is followed by a sleep of \<open>2 ^ attempt\<close>
  seconds (the counter after the increment); the fifth failure raises its exception.
  So a run of five failures, with any number of 503 responses before each of them,
  sleeps 5 seconds per 503 response and 2, 4, 8, 16 seconds after the first four
  failures, and ends by raising the fifth exception, whatever the network does later.
\<close>

theorem call_deepseek_retry_policy:
  "(attempt < max_retries \<longrightarrow>
      call_loop attempt (Overloaded # rest) =
        (5 # fst (call_loop attempt rest), snd (call_loop attempt rest)))
   \<and> (attempt + 1 < max_retries \<longrightarrow>
      call_loop attempt (Failed e # rest) =
        (2 ^ (attempt + 1) # fst (call_loop (attempt + 1) rest),
         snd (call_loop (attempt + 1) rest)))
   \<and> (attempt + 1 = max_retries \<longrightarrow>
      call_loop attempt (Failed e # rest) = ([], Raised e))
   \<and> call_deepseek
        (replicate n0 Overloaded @ Failed e1 #
         replicate n1 Overloaded @ Failed e2 #
         replicate n2 Overloaded @ Failed e3 #
         replicate n3 Overloaded @ Failed e4 #
         replicate n4 Overloaded @ Failed e5 # later) =
       (replicate n0 5 @ 2 # replicate n1 5 @ 4 # replicate n2 5 @ 8 #
        replicate n3 5 @ 16 # replicate n4 5, Raised e5)"
proof -
  have five: "max_retries = Suc (Suc (Suc (Suc (Suc 0))))"
    by (simp add: max_retries_def)
  have run: "call_loop 0
        (replicate n0 Overloaded @ Failed e1 #
         replicate n1 Overloaded @ Failed e2 #
         replicate n2 Overloaded @ Failed e3 #
         replicate n3 Overloaded @ Failed e4 #
         replicate n4 Overloaded @ Failed e5 # later) =
       (replicate n0 5 @ 2 # replicate n1 5 @ 4 # replicate n2 5 @ 8 #
        replicate n3 5 @ 16 # replicate n4 5, Raised e5)"
    by (simp add: call_loop_overloaded_failed call_loop_last_failure five)
  show ?thesis
    using run by (simp add: call_deepseek_def split: prod.split)
qed

theorem call_deepseek_retry_policy_witness:
  "(0::nat) < max_retries \<and> (3::nat) + 1 < max_retries \<and> (4::nat) + 1 = max_retries
   \<and> call_loop 0 [Overloaded, Answered (ascii ''ok'')] = ([5], Returned (ascii ''ok''))
   \<and> call_loop 3 [Failed (Exc [116]), Answered (ascii ''ok'')] = ([16], Returned (ascii ''ok''))
   \<and> call_loop 4 [Failed (Exc [116]), Answered (ascii ''ok'')] = ([], Raised (Exc [116]))
   \<and> call_deepseek
        [Overloaded, Failed (Exc [97]), Failed (Exc [98]), Overloaded, Overloaded,
         Failed (Exc [99]), Failed (Exc [100]), Failed (Exc [101]), Answered (ascii ''ok'')]
       = ([5, 2, 4, 5, 5, 8, 16], Raised (Exc [101]))"
proof -
  note a = call_deepseek_retry_policy
    [where attempt = 0 and rest = "[Answered (ascii ''ok'')]" and e = "Exc [116]"
       and ?n0.0 = "Suc 0" and ?e1.0 = "Exc [97]" and ?n1.0 = 0 and ?e2.0 = "Exc [98]"
       and ?n2.0 = "Suc (Suc 0)" and ?e3.0 = "Exc [99]" and ?n3.0 = 0 and ?e4.0 = "Exc [100]"
       and ?n4.0 = 0 and ?e5.0 = "Exc [101]" and later = "[Answered (ascii ''ok'')]"]
  note b = call_deepseek_retry_policy
    [where attempt = 3 and rest = "[Answered (ascii ''ok'')]" and e = "Exc [116]"
       and ?n0.0 = 0 and ?e1.0 = "Exc [97]" and ?n1.0 = 0 and ?e2.0 = "Exc [98]"
       and ?n2.0 = 0 and ?e3.0 = "Exc [99]" and ?n3.0 = 0 and ?e4.0 = "Exc [100]"
       and ?n4.0 = 0 and ?e5.0 = "Exc [101]" and later = "[]"]
  note c = call_deepseek_retry_policy
    [where attempt = 4 and rest = "[Answered (ascii ''ok'')]" and e = "Exc [116]"
       and ?n0.0 = 0 and ?e1.0 = "Exc [97]" and ?n1.0 = 0 and ?e2.0 = "Exc [98]"
       and ?n2.0 = 0 and ?e3.0 = "Exc [99]" and ?n3.0 = 0 and ?e4.0 = "Exc [100]"
       and ?n4.0 = 0 and ?e5.0 = "Exc [101]" and later = "[]"]
  have m: "max_retries = 5"
    by (simp add: max_retries_def)
  from a have a1: "call_loop 0 [Overloaded, Answered (ascii ''ok'')] = ([5], Returned (ascii ''ok''))"
    by (simp add: m)
  from a have a2: "call_deepseek
        [Overloaded, Failed (Exc [97]), Failed (Exc [98]), Overloaded, Overloaded,
         Failed (Exc [99]), Failed (Exc [100]), Failed (Exc [101]), Answered (ascii ''ok'')]
       = ([5, 2, 4, 5, 5, 8, 16], Raised (Exc [101]))"
    by simp
  from b have b1: "call_loop 3 [Failed (Exc [116]), Answered (ascii ''ok'')]
      = ([16], Returned (ascii ''ok''))"
    by (simp add: m)
  from c have c1: "call_loop 4 [Failed (Exc [116]), Answered (ascii ''ok'')]
      = ([], Raised (Exc [116]))"
    by (simp add: m)
  show ?thesis
    using a1 a2 b1 c1 by (simp add: m)
qed

section \<open>Properties of the report content\<close>

text \<open>
  C10. \<open>extract_report_content\<close> never returns an empty report: a missing or empty
  response text gives the fixed placeholder, any other text is returned unchanged.
\<close>

theorem extract_report_content_nonempty:
  "extract_report_content response_text \<noteq> []
   \<and> extract_report_content None = report_error_placeholder
   \<and> extract_report_content (Some []) = report_error_placeholder
   \<and> (t \<noteq> [] \<longrightarrow> extract_report_content (Some t) = t)"
  by (simp add: extract_report_content_def report_error_placeholder_def split: option.splits)

theorem extract_report_content_nonempty_witness:
  "ascii ''# Report'' \<noteq> []
   \<and> extract_report_content (Some (ascii ''# Report'')) = ascii ''# Report''"
  using extract_report_content_nonempty [of _ "ascii ''# Report''"]
  by (simp add: ascii_def)

section \<open>Properties of the company extraction\<close>

lemma split_on_line: "sep \<notin> set l \<Longrightarrow> split_on sep (l @ sep # rest) = l # split_on sep rest"
  by (induction l) simp_all

lemma split_on_single: "sep \<notin> set l \<Longrightarrow> split_on sep l = [l]"
  by (induction l) simp_all

lemma split_on_join:
  "ls \<noteq> [] \<Longrightarrow> list_all (\<lambda>l. newline \<notin> set l) ls \<Longrightarrow>
   split_on newline (join_lines ls) = ls"
  by (induction ls rule: join_lines.induct) (simp_all add: split_on_single split_on_line)

lemma company_step_field_line:
  assumes "name cur \<noteq> None" "strip raw \<noteq> []" "\<not> is_name_line lower (strip raw)"
  shows "company_step lower (cs, after_lines lower cur rest) raw =
         (cs, after_lines lower cur (rest @ [strip raw]))"
proof -
  have ne: "after_lines lower cur rest \<noteq> empty_company"
    using assms(1) by (auto simp: after_lines_def empty_company_def)
  show ?thesis
    using assms(2,3) ne
    by (auto simp: company_step_def Let_def after_lines_def is_name_line_def is_website_line_def
        is_country_line_def is_characteristics_line_def is_link_line_def last_label_def
        split: option.splits)
qed

lemma after_lines_nil: "name cur \<noteq> None \<Longrightarrow> after_lines lower cur [] = cur"
  by (simp add: after_lines_def)

lemma foldl_field_lines:
  assumes "name cur \<noteq> None"
    and "list_all (\<lambda>l. strip l \<noteq> [] \<and> \<not> is_name_line lower (strip l)) raws"
  shows "foldl (company_step lower) (cs, cur) raws = (cs, after_lines lower cur (map strip raws))"
  using assms(2)
proof (induction raws rule: rev_induct)
  case Nil
  then show ?case using assms(1) by (simp add: after_lines_nil)
next
  case (snoc raw raws)
  then show ?case
    using assms(1) by (simp add: company_step_field_line)
qed

lemma company_step_opening:
  assumes "strip raw \<noteq> []" "is_name_line lower (strip raw)"
  shows "company_step lower st raw =
         (closed st, empty_company\<lparr>name := Some (label_value (strip raw))\<rparr>)"
  using assms by (simp add: company_step_def Let_def is_name_line_def closed_def)

lemma company_step_blank:
  "strip raw = [] \<Longrightarrow> company_step lower st raw = (closed st, empty_company)"
  by (cases st) (simp add: company_step_def Let_def closed_def)

lemma after_first_line:
  "after_lines lower (empty_company\<lparr>name := Some (label_value (strip first))\<rparr>) (map strip rest)
   = block_record lower (first # rest)"
  by (simp add: after_lines_def block_record_def empty_company_def last_label_def Let_def)

lemma foldl_block:
  assumes "company_block lower block" "strip blank = []"
  shows "foldl (company_step lower) st (block @ [blank]) =
         (closed st @ [block_record lower block], empty_company)"
proof -
  from assms(1) obtain first rest where block: "block = first # rest"
    by (cases block) (auto simp: company_block_def)
  let ?cur = "empty_company\<lparr>name := Some (label_value (strip first))\<rparr>"
  have first: "company_step lower st first = (closed st, ?cur)"
    using assms(1) by (simp add: block company_block_def company_step_opening)
  have rest: "list_all (\<lambda>l. strip l \<noteq> [] \<and> \<not> is_name_line lower (strip l)) rest"
    using assms(1) by (simp add: block company_block_def list_all_iff)
  have fields: "foldl (company_step lower) (closed st, ?cur) rest
      = (closed st, block_record lower block)"
    using foldl_field_lines [OF _ rest, of ?cur "closed st"] by (simp add: after_first_line block)
  have "block_record lower block \<noteq> empty_company"
    by (simp add: block_record_def empty_company_def Let_def)
  then have "company_step lower (closed st, block_record lower block) blank
      = (closed st @ [block_record lower block], empty_company)"
    using assms(2) by (simp add: company_step_blank closed_def)
  then show ?thesis
    by (simp add: block first fields)
qed

lemma company_step_prefix:
  "company_step lower (xs @ cs, cur) raw =
   (xs @ fst (company_step lower (cs, cur) raw), snd (company_step lower (cs, cur) raw))"
  by (simp add: company_step_def Let_def)

lemma foldl_prefix:
  "foldl (company_step lower) (xs @ cs, cur) raws =
   (xs @ fst (foldl (company_step lower) (cs, cur) raws),
    snd (foldl (company_step lower) (cs, cur) raws))"
proof (induction raws rule: rev_induct)
  case Nil
  then show ?case by simp
next
  case (snoc raw raws)
  obtain cs' cur' where st: "foldl (company_step lower) (cs, cur) raws = (cs', cur')"
    by (cases "foldl (company_step lower) (cs, cur) raws")
  show ?case
    using snoc by (simp add: st company_step_prefix)
qed

lemma extract_companies_joined:
  assumes "list_all (\<lambda>l. newline \<notin> set l) ls"
  shows "extract_companies_from_text lower (join_lines ls) =
         closed (foldl (company_step lower) ([], empty_company) ls)"
proof (cases "ls = []")
  case True
  then show ?thesis
    by (simp add: extract_companies_from_text_def closed_def company_step_def Let_def strip_def
        lstrip_def rstrip_def)
next
  case False
  then show ?thesis
    using assms by (simp add: extract_companies_from_text_def closed_def Let_def split_on_join)
qed

lemma extract_companies_around_block:
  assumes "company_block lower block" "blank_line blank"
    and "list_all (\<lambda>l. newline \<notin> set l) (pre @ post)"
  shows "extract_companies_from_text lower (join_lines (pre @ block @ blank # post)) =
         extract_companies_from_text lower (join_lines pre) @ [block_record lower block]
         @ extract_companies_from_text lower (join_lines post)"
proof -
  let ?step = "company_step lower"
  let ?init = "([], empty_company) :: company list \<times> company"
  have pre: "list_all (\<lambda>l. newline \<notin> set l) pre" and post: "list_all (\<lambda>l. newline \<notin> set l) post"
    using assms(3) by simp_all
  have block: "list_all (\<lambda>l. newline \<notin> set l) block"
    using assms(1) by (simp add: company_block_def list_all_iff)
  have blank: "newline \<notin> set blank" "strip blank = []"
    using assms(2) by (simp_all add: blank_line_def)
  have all: "list_all (\<lambda>l. newline \<notin> set l) (pre @ block @ blank # post)"
    using pre post block blank by simp
  obtain cs cur where after: "foldl ?step ?init post = (cs, cur)"
    by (cases "foldl ?step ?init post")
  have "foldl ?step ?init (pre @ block @ blank # post)
      = foldl ?step (foldl ?step (foldl ?step ?init pre) (block @ [blank])) post"
    by simp
  also have "\<dots> = foldl ?step
      ((closed (foldl ?step ?init pre) @ [block_record lower block]) @ [], empty_company) post"
    by (simp only: foldl_block [OF assms(1) blank(2)] append_Nil2)
  also have "\<dots> = ((closed (foldl ?step ?init pre) @ [block_record lower block]) @ cs, cur)"
    by (simp only: foldl_prefix after fst_conv snd_conv)
  finally have "closed (foldl ?step ?init (pre @ block @ blank # post))
      = closed (foldl ?step ?init pre) @ [block_record lower block] @ closed (cs, cur)"
    by (simp add: closed_def)
  then show ?thesis
    by (simp only: extract_companies_joined [OF all] extract_companies_joined [OF pre]
        extract_companies_joined [OF post] after)
qed

lemma update_nonempty:
  "c\<lparr>name := Some v\<rparr> \<noteq> empty_company"
  "c\<lparr>website := Some v\<rparr> \<noteq> empty_company"
  "c\<lparr>country := Some v\<rparr> \<noteq> empty_company"
  "c\<lparr>characteristics := Some v\<rparr> \<noteq> empty_company"
  "c\<lparr>links := Some vs\<rparr> \<noteq> empty_company"
proof -
  show "c\<lparr>name := Some v\<rparr> \<noteq> empty_company"
  proof
    assume "c\<lparr>name := Some v\<rparr> = empty_company"
    then have "name (c\<lparr>name := Some v\<rparr>) = name empty_company" by simp
    then show False by (simp add: empty_company_def)
  qed
  show "c\<lparr>website := Some v\<rparr> \<noteq> empty_company"
  proof
    assume "c\<lparr>website := Some v\<rparr> = empty_company"
    then have "website (c\<lparr>website := Some v\<rparr>) = website empty_company" by simp
    then show False by (simp add: empty_company_def)
  qed
  show "c\<lparr>country := Some v\<rparr> \<noteq> empty_company"
  proof
    assume "c\<lparr>country := Some v\<rparr> = empty_company"
    then have "country (c\<lparr>country := Some v\<rparr>) = country empty_company" by simp
    then show False by (simp add: empty_company_def)
  qed
  show "c\<lparr>characteristics := Some v\<rparr> \<noteq> empty_company"
  proof
    assume "c\<lparr>characteristics := Some v\<rparr> = empty_company"
    then have "characteristics (c\<lparr>characteristics := Some v\<rparr>) = characteristics empty_company"
      by simp
    then show False by (simp add: empty_company_def)
  qed
  show "c\<lparr>links := Some vs\<rparr> \<noteq> empty_company"
  proof
    assume "c\<lparr>links := Some vs\<rparr> = empty_company"
    then have "links (c\<lparr>links := Some vs\<rparr>) = links empty_company" by simp
    then show False by (simp add: empty_company_def)
  qed
qed

lemma records_started_step:
  "records_started (company_step lower st raw) =
   records_started st + (if opens_record lower raw then 1 else 0)"
  by (cases st)
     (simp add: records_started_def opens_record_def company_step_def Let_def is_name_line_def
        update_nonempty)

lemma records_started_foldl:
  "records_started (foldl (company_step lower) st raws) =
   records_started st + length (filter (opens_record lower) raws)"
  by (induction raws arbitrary: st) (simp_all add: records_started_step)

lemma extract_companies_count:
  "length (extract_companies_from_text lower text) =
   length (filter (opens_record lower) (split_on newline text))"
  using records_started_foldl [of lower "([], empty_company)" "split_on newline text"]
  by (auto simp: extract_companies_from_text_def records_started_def Let_def)

lemma all_named_step: "all_named st \<Longrightarrow> all_named (company_step lower st raw)"
  by (cases st) (auto simp: all_named_def company_step_def Let_def update_nonempty)

lemma all_named_foldl: "all_named st \<Longrightarrow> all_named (foldl (company_step lower) st raws)"
  by (induction raws arbitrary: st) (simp_all add: all_named_step)

lemma extract_companies_named:
  "list_all (\<lambda>c. name c \<noteq> None) (extract_companies_from_text lower text)"
proof -
  have "all_named (foldl (company_step lower) ([], empty_company) (split_on newline text))"
    by (rule all_named_foldl) (simp add: all_named_def)
  then show ?thesis
    by (auto simp: extract_companies_from_text_def all_named_def Let_def)
qed

lemma company_step_unopened:
  "\<not> opens_record lower raw \<Longrightarrow>
   company_step lower (cs, empty_company) raw = (cs, empty_company)"
  by (auto simp: company_step_def Let_def opens_record_def is_name_line_def)

text \<open>
  C4, as amended. \<open>extract_companies_from_text\<close> returns exactly one record per line that
  holds a company label (company, name or product, in Russian or English), so a block with
  several such lines yields several records. For every text that contains a block of
  lines ended by a blank line, where the block starts with a line holding a company label
  and holds no other such line, whatever lines come before the block and after the blank
  line, it returns exactly one record for the block, between the records of the lines
  before the block and the records of the lines after the blank line, which are
  extracted as from a text of their own: the blank line closes the record and nothing
  after it reaches the record. The name of the record is the remainder of the first line
  after its first colon; website, country and characteristics are taken from the last
  line of that kind and are absent when the block has none; the lines that begin with
  \<open>http\<close> and hold no label form the link list, absent when there is none. A label is
  matched case-insensitively anywhere in the line, not only at its start, and the kinds
  are tested in the order company, website, country, characteristics, link.
\<close>

theorem extract_companies_block_records:
  "length (extract_companies_from_text lower text) =
     length (filter (opens_record lower) (split_on newline text))
   \<and> (company_block lower block \<and> blank_line blank
        \<and> list_all (\<lambda>l. newline \<notin> set l) (pre @ post) \<longrightarrow>
        extract_companies_from_text lower (join_lines (pre @ block @ blank # post)) =
          extract_companies_from_text lower (join_lines pre) @ [block_record lower block]
          @ extract_companies_from_text lower (join_lines post))"
  using extract_companies_count [of lower "text"]
    extract_companies_around_block [of lower block blank pre post]
  by blast

theorem extract_companies_block_records_witness:
  "company_block lower_basic
     [ascii ''Company: Acme'', ascii ''WEBSITE: acme.io'', ascii ''http://a.io'']
   \<and> blank_line [32, 32]
   \<and> extract_companies_from_text lower_basic
        (ascii ''Intro'' @ [10] @ ascii ''Name: Z'' @ [10]
         @ ascii ''Company: Acme'' @ [10] @ ascii ''WEBSITE: acme.io'' @ [10]
         @ ascii ''http://a.io'' @ [10] @ [32, 32] @ [10]
         @ ascii ''Website: late.io'' @ [10] @ ascii ''Name: B'') =
       [\<lparr>name = Some (ascii ''Z''), website = None, country = None,
         characteristics = None, links = None\<rparr>,
        \<lparr>name = Some (ascii ''Acme''), website = Some (ascii ''acme.io''), country = None,
         characteristics = None, links = Some [ascii ''http://a.io'']\<rparr>,
        \<lparr>name = Some (ascii ''B''), website = None, country = None,
         characteristics = None, links = None\<rparr>]"
proof -
  let ?block = "[ascii ''Company: Acme'', ascii ''WEBSITE: acme.io'', ascii ''http://a.io'']"
  let ?pre = "[ascii ''Intro'', ascii ''Name: Z'']"
  let ?post = "[ascii ''Website: late.io'', ascii ''Name: B'']"
  have s: "strip (ascii ''Company: Acme'') = ascii ''Company: Acme''"
    "strip (ascii ''WEBSITE: acme.io'') = ascii ''WEBSITE: acme.io''"
    "strip (ascii ''http://a.io'') = ascii ''http://a.io''"
    by (simp_all add: ascii_def strip_def lstrip_def rstrip_def is_space_def)
  have kn: "any_keyword lower_basic name_keywords (ascii ''Company: Acme'')"
    "\<not> any_keyword lower_basic name_keywords (ascii ''WEBSITE: acme.io'')"
    "\<not> any_keyword lower_basic name_keywords (ascii ''http://a.io'')"
    by (simp_all add: any_keyword_def name_keywords_def lower_basic_def ascii_def)
  have kw: "any_keyword lower_basic website_keywords (ascii ''WEBSITE: acme.io'')"
    "\<not> any_keyword lower_basic website_keywords (ascii ''http://a.io'')"
    by (simp_all add: any_keyword_def website_keywords_def lower_basic_def ascii_def)
  have kc: "\<not> any_keyword lower_basic country_keywords (ascii ''http://a.io'')"
    by (simp add: any_keyword_def country_keywords_def lower_basic_def ascii_def)
  have kh: "\<not> any_keyword lower_basic characteristics_keywords (ascii ''http://a.io'')"
    by (simp add: any_keyword_def characteristics_keywords_def lower_basic_def ascii_def)
  have kl: "startswith (ascii ''http://a.io'') (ascii ''http'')"
    by (simp add: ascii_def)
  have n: "is_name_line lower_basic (ascii ''Company: Acme'')"
    "\<not> is_name_line lower_basic (ascii ''WEBSITE: acme.io'')"
    "\<not> is_name_line lower_basic (ascii ''http://a.io'')"
    by (simp_all add: is_name_line_def kn)
  have w: "is_website_line lower_basic (ascii ''WEBSITE: acme.io'')"
    "\<not> is_website_line lower_basic (ascii ''http://a.io'')"
    by (simp_all add: is_website_line_def n kw)
  have c: "\<not> is_country_line lower_basic (ascii ''WEBSITE: acme.io'')"
    "\<not> is_country_line lower_basic (ascii ''http://a.io'')"
    by (simp_all add: is_country_line_def n w kc)
  have h: "\<not> is_characteristics_line lower_basic (ascii ''WEBSITE: acme.io'')"
    "\<not> is_characteristics_line lower_basic (ascii ''http://a.io'')"
    by (simp_all add: is_characteristics_line_def n w c kh)
  have l: "\<not> is_link_line lower_basic (ascii ''WEBSITE: acme.io'')"
    "is_link_line lower_basic (ascii ''http://a.io'')"
    by (simp_all add: is_link_line_def n w c h kl)
  have v: "label_value (ascii ''Company: Acme'') = ascii ''Acme''"
    "label_value (ascii ''WEBSITE: acme.io'') = ascii ''acme.io''"
    by (simp_all add: label_value_def colon_def ascii_def strip_def lstrip_def rstrip_def
        is_space_def)
  have nl: "list_all (\<lambda>l. newline \<notin> set l) ?block"
    "list_all (\<lambda>l. newline \<notin> set l) (?pre @ ?post)"
    by (simp_all add: newline_def ascii_def)
  have ne: "ascii ''Company: Acme'' \<noteq> []" "ascii ''WEBSITE: acme.io'' \<noteq> []"
    "ascii ''http://a.io'' \<noteq> []"
    by (simp_all add: ascii_def)
  have block: "company_block lower_basic ?block"
    using nl(1) by (simp add: company_block_def s n ne)
  have blank: "blank_line [32, 32]"
    by (simp add: blank_line_def newline_def strip_def lstrip_def rstrip_def is_space_def)
  have before: "extract_companies_from_text lower_basic (join_lines ?pre) =
       [\<lparr>name = Some (ascii ''Z''), website = None, country = None,
         characteristics = None, links = None\<rparr>]"
    by (simp add: extract_companies_from_text_def company_step_def ascii_def newline_def colon_def
     strip_def lstrip_def rstrip_def is_space_def any_keyword_def name_keywords_def lower_basic_def
     website_keywords_def country_keywords_def characteristics_keywords_def label_value_def
     empty_company_def)
  have after: "extract_companies_from_text lower_basic (join_lines ?post) =
       [\<lparr>name = Some (ascii ''B''), website = None, country = None,
         characteristics = None, links = None\<rparr>]"
    by (simp add: extract_companies_from_text_def company_step_def ascii_def newline_def colon_def
     strip_def lstrip_def rstrip_def is_space_def any_keyword_def name_keywords_def lower_basic_def
     website_keywords_def country_keywords_def characteristics_keywords_def label_value_def
     empty_company_def)
  have rec: "block_record lower_basic ?block =
        \<lparr>name = Some (ascii ''Acme''), website = Some (ascii ''acme.io''), country = None,
         characteristics = None, links = Some [ascii ''http://a.io'']\<rparr>"
    by (simp add: block_record_def Let_def s n w c h l v last_label_def)
  from extract_companies_block_records [of lower_basic _ ?block "[32, 32]" ?pre ?post]
    block blank nl(2)
  have "extract_companies_from_text lower_basic (join_lines (?pre @ ?block @ [32, 32] # ?post)) =
          extract_companies_from_text lower_basic (join_lines ?pre)
          @ [block_record lower_basic ?block]
          @ extract_companies_from_text lower_basic (join_lines ?post)"
    by blast
  then show ?thesis
    using block blank before after rec by (simp add: newline_def)
qed

text \<open>
  The claim C4 as stated fails in two ways. The block \<open>Company: A\<close>, \<open>Product: B\<close>
  followed by an empty line starts with a company label and yields two records, not one.
  In the block \<open>Company: A\<close>, \<open>Our website: w.io\<close> the second line does not begin with a
  label, and yet it fills the website of the record: a label is looked for anywhere in
  the line.
\<close>

theorem extract_companies_two_labels_counterexample:
  "extract_companies_from_text lower_basic
     (ascii ''Company: A'' @ [10] @ ascii ''Product: B'' @ [10, 10]) =
   [\<lparr>name = Some (ascii ''A''), website = None, country = None, characteristics = None,
     links = None\<rparr>,
    \<lparr>name = Some (ascii ''B''), website = None, country = None, characteristics = None,
     links = None\<rparr>]
   \<and> \<not> startswith (lower_basic (ascii ''Our website: w.io'')) (ascii ''website:'')
   \<and> extract_companies_from_text lower_basic
     (ascii ''Company: A'' @ [10] @ ascii ''Our website: w.io'' @ [10, 10]) =
   [\<lparr>name = Some (ascii ''A''), website = Some (ascii ''w.io''), country = None,
     characteristics = None, links = None\<rparr>]"
  by (simp add: extract_companies_from_text_def company_step_def ascii_def newline_def colon_def
     strip_def lstrip_def rstrip_def is_space_def any_keyword_def name_keywords_def lower_basic_def
     website_keywords_def label_value_def empty_company_def)

text \<open>
  C9. Every record returned by \<open>extract_companies_from_text\<close> has a \<open>name\<close> field; a line
  that does not open a record (a website, country, characteristics or link line, or any
  other line without a company label) leaves the state unchanged while no record is open.
\<close>

theorem extract_companies_named_records:
  "list_all (\<lambda>c. name c \<noteq> None) (extract_companies_from_text lower text)
   \<and> (\<not> opens_record lower raw \<longrightarrow>
        company_step lower (cs, empty_company) raw = (cs, empty_company))"
  using extract_companies_named [of lower "text"] company_step_unopened [of lower raw cs]
  by blast

theorem extract_companies_named_records_witness:
  "\<not> opens_record lower_basic (ascii ''Website: w.io'')
   \<and> company_step lower_basic ([], empty_company) (ascii ''Website: w.io'') = ([], empty_company)
   \<and> extract_companies_from_text lower_basic
        (ascii ''Website: w.io'' @ [10] @ ascii ''Name: B'' @ [10] @ ascii ''Country: DE'') =
       [\<lparr>name = Some (ascii ''B''), website = None, country = Some (ascii ''DE''),
         characteristics = None, links = None\<rparr>]
   \<and> list_all (\<lambda>c. name c \<noteq> None)
       (extract_companies_from_text lower_basic
         (ascii ''Website: w.io'' @ [10] @ ascii ''Name: B'' @ [10] @ ascii ''Country: DE''))"
proof -
  have a: "\<not> opens_record lower_basic (ascii ''Website: w.io'')"
    by (simp add: opens_record_def is_name_line_def any_keyword_def name_keywords_def
        lower_basic_def ascii_def strip_def lstrip_def rstrip_def is_space_def)
  have b: "extract_companies_from_text lower_basic
        (ascii ''Website: w.io'' @ [10] @ ascii ''Name: B'' @ [10] @ ascii ''Country: DE'') =
       [\<lparr>name = Some (ascii ''B''), website = None, country = Some (ascii ''DE''),
         characteristics = None, links = None\<rparr>]"
    by (simp add: extract_companies_from_text_def company_step_def ascii_def newline_def colon_def
     strip_def lstrip_def rstrip_def is_space_def any_keyword_def name_keywords_def lower_basic_def
     website_keywords_def country_keywords_def label_value_def empty_company_def)
  show ?thesis
    using extract_companies_named_records [of lower_basic
        "ascii ''Website: w.io'' @ [10] @ ascii ''Name: B'' @ [10] @ ascii ''Country: DE''"
        "ascii ''Website: w.io''" "[]"] a b
    by simp
qed

section \<open>Properties of the stage functions and of the retry wrapper\<close>

text \<open>
  The model call never falls out of its loop: the value \<open>None\<close> is not among its
  results.
\<close>

lemma call_loop_not_none: "attempt < max_retries \<Longrightarrow> snd (call_loop attempt outcomes) \<noteq> ReturnedNone"
  by (induction attempt outcomes rule: call_loop.induct) (auto simp: Let_def split: prod.splits)















lemma retry_loop_invocations:
  "length (filter is_invoke (fst (retry_loop func sn details n attempts le))) \<le> length attempts"
  by (induction attempts arbitrary: le)
     (auto simp: Let_def is_invoke_def comp_def split: stage_end.splits)

text \<open>
  C2. \<open>_execute_with_retry\<close> calls the stage function at most 3 times. The first call
  is made at once; before the second and the third call it sends an update (status
  active, progress 0, the number of the attempt) and sleeps \<open>2 ^ attempt\<close> seconds, that is
  2 and 4 seconds. The first result is returned; when all three calls raise, the failure
  dict with \<open>success = False\<close> and the text of the last exception is returned, and
  no exception is raised.
\<close>

theorem execute_with_retry_policy:
  "length (filter is_invoke (fst (execute_with_retry func sn details))) \<le> 3
   \<and> (snd (func 0) = Finished v \<longrightarrow>
        execute_with_retry func sn details = (Invoke 0 # map Update (fst (func 0)), Value v))
   \<and> (snd (func 0) = Raising e0 \<and> snd (func 1) = Finished v \<longrightarrow>
        execute_with_retry func sn details =
          (Invoke 0 # map Update (fst (func 0))
           @ [Update (retry_update sn 2), Sleep 2, Invoke 1] @ map Update (fst (func 1)),
           Value v))
   \<and> (snd (func 0) = Raising e0 \<and> snd (func 1) = Raising e1 \<and> snd (func 2) = Finished v \<longrightarrow>
        execute_with_retry func sn details =
          (Invoke 0 # map Update (fst (func 0))
           @ [Update (retry_update sn 2), Sleep 2, Invoke 1] @ map Update (fst (func 1))
           @ [Update (retry_update sn 3), Sleep 4, Invoke 2] @ map Update (fst (func 2)),
           Value v))
   \<and> (snd (func 0) = Raising e0 \<and> snd (func 1) = Raising e1 \<and> snd (func 2) = Raising e2 \<longrightarrow>
        execute_with_retry func sn details =
          (Invoke 0 # map Update (fst (func 0))
           @ [Update (retry_update sn 2), Sleep 2, Invoke 1] @ map Update (fst (func 1))
           @ [Update (retry_update sn 3), Sleep 4, Invoke 2] @ map Update (fst (func 2)),
           Failure_object \<lparr>success = False, error = str_exception (Some e2),
                           error_details = details (Some e2)\<rparr>))"
proof -
  have upt: "[0..<stage_max_retries] = [0, 1, 2]"
    by (simp add: stage_max_retries_def upt_rec)
  have count: "length (filter is_invoke (fst (execute_with_retry func sn details))) \<le> 3"
    using retry_loop_invocations [of func sn details stage_max_retries "[0..<stage_max_retries]" None]
    by (simp add: execute_with_retry_def stage_max_retries_def)
  have two: "Suc (Suc 0) = 2"
    by simp
  have runs: "execute_with_retry func sn details =
      retry_loop func sn details stage_max_retries [0, 1, 2] None"
    by (simp add: execute_with_retry_def upt)
  show ?thesis
    unfolding runs [symmetric]
    by (intro conjI impI, rule count)
       (simp_all add: runs Let_def retry_update_def two)
qed

theorem execute_with_retry_policy_witness:
  "execute_with_retry (\<lambda>k. ([], if k < 0 then Raising (Exc [98]) else Finished (7::nat)))
      Case_analysis (\<lambda>e. []) = ([Invoke 0], Value 7)
   \<and> execute_with_retry (\<lambda>k. ([], if k < 1 then Raising (Exc [98]) else Finished (7::nat)))
      Case_analysis (\<lambda>e. []) =
       ([Invoke 0, Update (retry_update Case_analysis 2), Sleep 2, Invoke 1], Value 7)
   \<and> execute_with_retry (\<lambda>k. ([], if k < 2 then Raising (Exc [98]) else Finished (7::nat)))
      Case_analysis (\<lambda>e. []) =
       ([Invoke 0, Update (retry_update Case_analysis 2), Sleep 2, Invoke 1,
         Update (retry_update Case_analysis 3), Sleep 4, Invoke 2], Value 7)
   \<and> execute_with_retry (\<lambda>k. ([], if k < 3 then Raising (Exc [98]) else Finished (7::nat)))
      Case_analysis (\<lambda>e. []) =
       ([Invoke 0, Update (retry_update Case_analysis 2), Sleep 2, Invoke 1,
         Update (retry_update Case_analysis 3), Sleep 4, Invoke 2],
        Failure_object \<lparr>success = False, error = [98], error_details = []\<rparr>)"
  using execute_with_retry_policy
      [of "\<lambda>k. ([], if k < 0 then Raising (Exc [98]) else Finished (7::nat))"
          Case_analysis "\<lambda>e. []" 7 "Exc [98]" "Exc [98]" "Exc [98]"]
    execute_with_retry_policy
      [of "\<lambda>k. ([], if k < 1 then Raising (Exc [98]) else Finished (7::nat))"
          Case_analysis "\<lambda>e. []" 7 "Exc [98]" "Exc [98]" "Exc [98]"]
    execute_with_retry_policy
      [of "\<lambda>k. ([], if k < 2 then Raising (Exc [98]) else Finished (7::nat))"
          Case_analysis "\<lambda>e. []" 7 "Exc [98]" "Exc [98]" "Exc [98]"]
    execute_with_retry_policy
      [of "\<lambda>k. ([], if k < 3 then Raising (Exc [98]) else Finished (7::nat))"
          Case_analysis "\<lambda>e. []" 7 "Exc [98]" "Exc [98]" "Exc [98]"]
  by (simp add: str_exception_def)

section \<open>Properties of the link enhancement\<close>

lemma all_verified_links_empty:
  "all_verified_links cases = [] \<longleftrightarrow> \<not> list_ex has_working_link cases"
  by (induction cases)
     (auto simp: all_verified_links_def has_working_link_def list_ex_iff filter_empty_conv
        split: option.splits)

text \<open>
  C7. \<open>enhance_report_with_links\<close> returns the report unchanged when no case has a link
  with status \<open>working\<close>. Otherwise the prompt carries at most 20 candidate links and the
  first 15000 code points of the report, followed by the truncation marker when the
  report is longer. When the model call raises, or returns an empty text or \<open>None\<close>, the
  report that was passed in is returned; a non-empty answer is returned as it is. So a
  non-empty report never becomes an empty one.
\<close>

theorem enhance_report_fallbacks:
  "(\<not> list_ex has_working_link cases \<longrightarrow>
      enhance_report_with_links call report_content cases = Some report_content)
   \<and> length (candidate_links (enhancement_prompt_of report_content cases)) \<le> 20
   \<and> report_preview (enhancement_prompt_of report_content cases) =
       take 15000 report_content
       @ (if length report_content > 15000 then truncation_marker else [])
   \<and> (list_ex has_working_link cases \<longrightarrow>
        (\<forall>e. call (enhancement_prompt_of report_content cases) = Raised e \<longrightarrow>
           enhance_report_with_links call report_content cases = Some report_content)
        \<and> (call (enhancement_prompt_of report_content cases) = Returned [] \<longrightarrow>
           enhance_report_with_links call report_content cases = Some report_content)
        \<and> (call (enhancement_prompt_of report_content cases) = ReturnedNone \<longrightarrow>
           enhance_report_with_links call report_content cases = Some report_content)
        \<and> (\<forall>t. t \<noteq> [] \<and> call (enhancement_prompt_of report_content cases) = Returned t \<longrightarrow>
           enhance_report_with_links call report_content cases = Some t))
   \<and> (report_content \<noteq> [] \<longrightarrow>
        enhance_report_with_links call report_content cases \<noteq> Some [])"
  by (auto simp: enhance_report_with_links_def all_verified_links_empty
      enhancement_prompt_of_def max_content_length_def split: call_result.splits)

theorem enhance_report_fallbacks_witness:
  "\<not> list_ex has_working_link []
   \<and> enhance_report_with_links (\<lambda>p. Running) (ascii ''R'') [] = Some (ascii ''R'')
   \<and> list_ex has_working_link
        [\<lparr>title = Some (ascii ''T''), company_name = None, description = None,
          verified_links = Some [\<lparr>link_url = Some (ascii ''u''),
                                   link_status = Some (ascii ''working'')\<rparr>]\<rparr>]
   \<and> enhance_report_with_links (\<lambda>p. Raised (Exc [])) (ascii ''R'')
        [\<lparr>title = Some (ascii ''T''), company_name = None, description = None,
          verified_links = Some [\<lparr>link_url = Some (ascii ''u''),
                                   link_status = Some (ascii ''working'')\<rparr>]\<rparr>]
       = Some (ascii ''R'')
   \<and> enhance_report_with_links (\<lambda>p. Returned []) (ascii ''R'')
        [\<lparr>title = Some (ascii ''T''), company_name = None, description = None,
          verified_links = Some [\<lparr>link_url = Some (ascii ''u''),
                                   link_status = Some (ascii ''working'')\<rparr>]\<rparr>]
       = Some (ascii ''R'')
   \<and> enhance_report_with_links (\<lambda>p. ReturnedNone) (ascii ''R'')
        [\<lparr>title = Some (ascii ''T''), company_name = None, description = None,
          verified_links = Some [\<lparr>link_url = Some (ascii ''u''),
                                   link_status = Some (ascii ''working'')\<rparr>]\<rparr>]
       = Some (ascii ''R'')
   \<and> enhance_report_with_links (\<lambda>p. Returned (ascii ''E'')) (ascii ''R'')
        [\<lparr>title = Some (ascii ''T''), company_name = None, description = None,
          verified_links = Some [\<lparr>link_url = Some (ascii ''u''),
                                   link_status = Some (ascii ''working'')\<rparr>]\<rparr>]
       = Some (ascii ''E'')"
proof -
  let ?cases = "[\<lparr>title = Some (ascii ''T''), company_name = None, description = None,
          verified_links = Some [\<lparr>link_url = Some (ascii ''u''),
                                   link_status = Some (ascii ''working'')\<rparr>]\<rparr>]"
  have none: "\<not> list_ex has_working_link []"
    by simp
  have some: "list_ex has_working_link ?cases"
    by (simp add: has_working_link_def)
  have ne: "ascii ''E'' \<noteq> []" "ascii ''R'' \<noteq> []"
    by (simp_all add: ascii_def)
  note a = enhance_report_fallbacks [of "[]" "\<lambda>p. Running" "ascii ''R''"]
  note b = enhance_report_fallbacks [of ?cases "\<lambda>p. Raised (Exc [])" "ascii ''R''"]
  note c = enhance_report_fallbacks [of ?cases "\<lambda>p. Returned []" "ascii ''R''"]
  note d = enhance_report_fallbacks [of ?cases "\<lambda>p. ReturnedNone" "ascii ''R''"]
  note e = enhance_report_fallbacks [of ?cases "\<lambda>p. Returned (ascii ''E'')" "ascii ''R''"]
  from a none have 1: "enhance_report_with_links (\<lambda>p. Running) (ascii ''R'') [] = Some (ascii ''R'')"
    by blast
  from b some have 2: "enhance_report_with_links (\<lambda>p. Raised (Exc [])) (ascii ''R'') ?cases
      = Some (ascii ''R'')"
    by blast
  from c some have 3: "enhance_report_with_links (\<lambda>p. Returned []) (ascii ''R'') ?cases
      = Some (ascii ''R'')"
    by blast
  from d some have 4: "enhance_report_with_links (\<lambda>p. ReturnedNone) (ascii ''R'') ?cases
      = Some (ascii ''R'')"
    by blast
  from e some ne have 5: "enhance_report_with_links (\<lambda>p. Returned (ascii ''E'')) (ascii ''R'') ?cases
      = Some (ascii ''E'')"
    by blast
  show ?thesis
    using none some 1 2 3 4 5 by blast
qed

section \<open>Properties of the insight extraction\<close>

lemma normalize_insight_object: "normalize_insight (JObj item) = Some (normalized item)"
  by (simp add: normalized_def insight_keys_def insight_default_def py_or_def ascii_def)

lemma normalize_items_objects: "normalize_items (map JObj items) = Some (map normalized items)"
  by (induction items) (simp_all add: normalize_insight_object del: normalize_insight.simps)

lemma dict_get_normalized:
  "key \<in> set insight_keys \<Longrightarrow>
   dict_get (normalized item) key =
     (if truthy (dict_get item key) then dict_get item key else insight_default key)"
  by (auto simp: normalized_def insight_keys_def dict_get_def ascii_def)

lemma fallback_insights_count:
  "length (fallback_insights content_str) =
   length (filter (\<lambda>line. strip_chars bullet_chars line \<noteq> []) (split_on newline content_str))"
  by (simp add: fallback_insights_def filter_map comp_def)

lemma fallback_insights_source:
  "list_all (\<lambda>insight. dict_get insight (ascii ''source_file'') = unknown_pdf)
     (fallback_insights content_str)"
  by (simp add: fallback_insights_def list_all_iff fallback_insight_def dict_get_def ascii_def)

text \<open>
  C5, as amended. For a response decoded to an array of objects, \<open>parse_local_insights\<close>
  returns one normalised insight per object, in order, in which each of the fields
  \<open>source_file\<close>, \<open>download_link\<close>, \<open>section\<close>, \<open>fact\<close>, \<open>metrics\<close>, \<open>date\<close>, \<open>links\<close> has
  the value the object provides when that value is truthy, and otherwise (absent, null,
  false, zero or empty) the default of the field. For a response that is not decoded to an
  array, or whose array holds an item that is not an object, it does not raise and
  returns the line fallback: one insight with \<open>source_file = "unknown.pdf"\<close> for each line
  that is not empty after spaces, dashes, bullets and asterisks were stripped from both
  of its ends, with the stripped line as its fact.
\<close>

theorem parse_local_insights_normalised:
  "(decode content_str = Some (JArr (map JObj items)) \<longrightarrow>
      parse_local_insights decode content_str = map normalized items
      \<and> length (parse_local_insights decode content_str) = length items
      \<and> (\<forall>item\<in>set items. \<forall>key\<in>set insight_keys.
            dict_get (normalized item) key =
              (if truthy (dict_get item key) then dict_get item key
               else insight_default key)))
   \<and> ((\<forall>data. decode content_str \<noteq> Some (JArr data)) \<longrightarrow>
        parse_local_insights decode content_str = fallback_insights content_str)
   \<and> (decode content_str = Some (JArr data) \<and> normalize_items data = None \<longrightarrow>
        parse_local_insights decode content_str = fallback_insights content_str)
   \<and> fallback_insights content_str =
        map fallback_insight
          (filter (\<lambda>line. line \<noteq> [])
             (map (strip_chars bullet_chars) (split_on newline content_str)))
   \<and> length (fallback_insights content_str) =
        length (filter (\<lambda>line. strip_chars bullet_chars line \<noteq> [])
                  (split_on newline content_str))
   \<and> list_all (\<lambda>insight. dict_get insight (ascii ''source_file'') = unknown_pdf)
        (fallback_insights content_str)"
proof (intro conjI impI)
  assume "decode content_str = Some (JArr (map JObj items))"
  then show a: "parse_local_insights decode content_str = map normalized items"
    by (simp add: parse_local_insights_def normalize_items_objects)
  then show "length (parse_local_insights decode content_str) = length items"
    by simp
next
  show "\<forall>item\<in>set items. \<forall>key\<in>set insight_keys.
      dict_get (normalized item) key =
        (if truthy (dict_get item key) then dict_get item key else insight_default key)"
    using dict_get_normalized by blast
next
  assume "\<forall>data. decode content_str \<noteq> Some (JArr data)"
  then show "parse_local_insights decode content_str = fallback_insights content_str"
    by (auto simp: parse_local_insights_def split: option.splits json.splits)
next
  assume "decode content_str = Some (JArr data) \<and> normalize_items data = None"
  then show "parse_local_insights decode content_str = fallback_insights content_str"
    by (simp add: parse_local_insights_def)
next
  show "fallback_insights content_str =
        map fallback_insight
          (filter (\<lambda>line. line \<noteq> [])
             (map (strip_chars bullet_chars) (split_on newline content_str)))"
    by (simp add: fallback_insights_def)
next
  show "length (fallback_insights content_str) =
        length (filter (\<lambda>line. strip_chars bullet_chars line \<noteq> [])
                  (split_on newline content_str))"
    by (rule fallback_insights_count)
next
  show "list_all (\<lambda>insight. dict_get insight (ascii ''source_file'') = unknown_pdf)
        (fallback_insights content_str)"
    by (rule fallback_insights_source)
qed

theorem parse_local_insights_normalised_witness:
  "parse_local_insights
      (\<lambda>s. if s = example_array_text
           then Some (JArr [JObj [(ascii ''fact'', JStr (ascii ''x'')),
                                  (ascii ''metrics'', JInt 3)]])
           else None)
      example_array_text =
     [[(ascii ''source_file'', unknown_pdf), (ascii ''download_link'', JNull),
       (ascii ''section'', JStr []), (ascii ''fact'', JStr (ascii ''x'')),
       (ascii ''metrics'', JInt 3), (ascii ''date'', JNull), (ascii ''links'', JArr [])]]
   \<and> parse_local_insights (\<lambda>s. None) example_lines_text =
       [fallback_insight (ascii ''alpha''), fallback_insight (ascii ''beta'')]
   \<and> parse_local_insights (\<lambda>s. Some (JArr [JStr (ascii ''x'')])) example_lines_text =
       [fallback_insight (ascii ''alpha''), fallback_insight (ascii ''beta'')]"
proof -
  let ?decode = "\<lambda>s. if s = example_array_text
           then Some (JArr [JObj [(ascii ''fact'', JStr (ascii ''x'')),
                                  (ascii ''metrics'', JInt 3)]])
           else None"
  let ?item = "[(ascii ''fact'', JStr (ascii ''x'')), (ascii ''metrics'', JInt 3)]"
  have n: "normalized ?item =
      [(ascii ''source_file'', unknown_pdf), (ascii ''download_link'', JNull),
       (ascii ''section'', JStr []), (ascii ''fact'', JStr (ascii ''x'')),
       (ascii ''metrics'', JInt 3), (ascii ''date'', JNull), (ascii ''links'', JArr [])]"
    by (simp add: normalized_def insight_keys_def insight_default_def dict_get_def ascii_def)
  have f: "fallback_insights example_lines_text =
       [fallback_insight (ascii ''alpha''), fallback_insight (ascii ''beta'')]"
    by (simp add: fallback_insights_def example_lines_text_def newline_def strip_chars_def
        bullet_chars_def ascii_def)
  have 1: "parse_local_insights ?decode example_array_text = map normalized [?item]"
    using parse_local_insights_normalised [of ?decode example_array_text "[?item]"]
    by simp
  have 2: "parse_local_insights (\<lambda>s. None) example_lines_text
      = fallback_insights example_lines_text"
    using parse_local_insights_normalised [of "\<lambda>s. None" example_lines_text]
    by simp
  have 3: "parse_local_insights (\<lambda>s. Some (JArr [JStr (ascii ''x'')])) example_lines_text
      = fallback_insights example_lines_text"
    using parse_local_insights_normalised
      [of "\<lambda>s. Some (JArr [JStr (ascii ''x'')])" example_lines_text _ "[JStr (ascii ''x'')]"]
    by simp
  show ?thesis
    using 1 2 3 by (simp add: n f)
qed

text \<open>
  The claim C5 as stated fails: for the response \<open>[{"metrics": 0}]\<close> the provided value
  0 of \<open>metrics\<close> is not returned; the insight has \<open>metrics = None\<close>.
\<close>

theorem parse_local_insights_zero_counterexample:
  "dict_get [(ascii ''metrics'', JInt 0)] (ascii ''metrics'') = JInt 0
   \<and> parse_local_insights
       (\<lambda>s. if s = example_zero_text then Some (JArr [JObj [(ascii ''metrics'', JInt 0)]])
            else None)
       example_zero_text
     = [[(ascii ''source_file'', unknown_pdf), (ascii ''download_link'', JNull),
         (ascii ''section'', JStr []), (ascii ''fact'', JStr []),
         (ascii ''metrics'', JNull), (ascii ''date'', JNull), (ascii ''links'', JArr [])]]"
  by (simp add: parse_local_insights_def dict_get_def py_or_def ascii_def)

section \<open>Properties of the whitespace cleanup\<close>

lemma takeWhile_remove_blank_lines:
  "newline \<notin> set (takeWhile is_space s) \<Longrightarrow>
   takeWhile is_space (remove_blank_lines False s) = takeWhile is_space s"
  by (induction s) auto

lemma no_blank_lines_remove: "no_blank_lines b (remove_blank_lines b s)"
proof (induction b s rule: remove_blank_lines.induct)
  case (1 at_line_start)
  then show ?case by simp
next
  case (2 at_line_start c cs)
  show ?case
  proof (cases "at_line_start \<and> newline \<in> set (takeWhile is_space (c # cs))")
    case True
    have eq: "remove_blank_lines at_line_start (c # cs) =
        remove_blank_lines True
          (drop (length (upto_last_newline (takeWhile is_space (c # cs)))) (c # cs))"
      using True by (subst remove_blank_lines.simps) (simp only: if_True simp_thms)
    have ih: "no_blank_lines True (remove_blank_lines True
          (drop (length (upto_last_newline (takeWhile is_space (c # cs)))) (c # cs)))"
      using "2.IH"(1) True by blast
    have at: at_line_start
      using True by simp
    show ?thesis
      by (subst eq) (use ih at in simp)
  next
    case False
    have eq: "remove_blank_lines at_line_start (c # cs) =
        c # remove_blank_lines (c = newline) cs"
      using False by (subst remove_blank_lines.simps) (simp only: if_False)
    have tail: "no_blank_lines (c = newline) (remove_blank_lines (c = newline) cs)"
      using "2.IH"(2) False by blast
    have head: "at_line_start \<longrightarrow>
        newline \<notin> set (takeWhile is_space (c # remove_blank_lines (c = newline) cs))"
    proof
      assume at_line_start
      with False have nl: "newline \<notin> set (takeWhile is_space (c # cs))"
        by blast
      show "newline \<notin> set (takeWhile is_space (c # remove_blank_lines (c = newline) cs))"
      proof (cases "is_space c")
        case True
        with nl have "c \<noteq> newline" "newline \<notin> set (takeWhile is_space cs)"
          by auto
        then show ?thesis
          using True by (simp add: takeWhile_remove_blank_lines)
      next
        case False
        then show ?thesis by simp
      qed
    qed
    show ?thesis
      unfolding eq no_blank_lines.simps using head tail by blast
  qed
qed

lemma remove_blank_lines_fixed: "no_blank_lines b s \<Longrightarrow> remove_blank_lines b s = s"
  by (induction b s rule: no_blank_lines.induct) auto

lemma collapse_blank_runs_fixed: "no_blank_lines b s \<Longrightarrow> collapse_blank_runs s = s"
proof (induction b s rule: no_blank_lines.induct)
  case (1 at_line_start)
  then show ?case by simp
next
  case (2 at_line_start c cs)
  then have tail: "no_blank_lines (c = newline) cs"
    by simp
  have "c = newline \<Longrightarrow> filter (\<lambda>d. d = newline) (takeWhile is_space cs) = []"
  proof -
    assume "c = newline"
    with tail have "no_blank_lines True cs" by simp
    then have "newline \<notin> set (takeWhile is_space cs)"
      by (cases cs) auto
    then show ?thesis
      by (auto simp: filter_empty_conv)
  qed
  then show ?case
    using "2.IH" tail by auto
qed

lemma no_blank_lines_lstrip: "no_blank_lines b s \<Longrightarrow> no_blank_lines True (dropWhile is_space s)"
  by (induction s arbitrary: b) auto

lemma no_blank_lines_prefix: "no_blank_lines b (s @ t) \<Longrightarrow> no_blank_lines b s"
proof (induction s arbitrary: b)
  case Nil
  then show ?case by simp
next
  case (Cons c s)
  have "set (takeWhile is_space (c # s)) \<subseteq> set (takeWhile is_space (c # s @ t))"
    by (metis append_Cons set_takeWhileD subsetI takeWhile_append1 takeWhile_append2
        set_append Un_iff)
  then show ?case
    using Cons by auto
qed

lemma rstrip_prefix: "s = rstrip s @ rev (takeWhile is_space (rev s))"
proof -
  have "rstrip s @ rev (takeWhile is_space (rev s))
      = rev (takeWhile is_space (rev s) @ dropWhile is_space (rev s))"
    by (simp only: rstrip_def rev_append)
  also have "\<dots> = s"
    by simp
  finally show ?thesis by simp
qed

lemma no_blank_lines_rstrip: "no_blank_lines b s \<Longrightarrow> no_blank_lines b (rstrip s)"
  using no_blank_lines_prefix [of b "rstrip s" "rev (takeWhile is_space (rev s))"] rstrip_prefix [of s]
  by simp

lemma no_blank_lines_strip: "no_blank_lines b s \<Longrightarrow> no_blank_lines True (strip s)"
  by (simp add: strip_def lstrip_def no_blank_lines_lstrip no_blank_lines_rstrip)

lemma last_rstrip: "rstrip s \<noteq> [] \<Longrightarrow> \<not> is_space (last (rstrip s))"
proof -
  assume ne: "rstrip s \<noteq> []"
  then have d: "dropWhile is_space (rev s) \<noteq> []"
    by (simp add: rstrip_def)
  have "last (rstrip s) = hd (dropWhile is_space (rev s))"
    using d by (simp add: rstrip_def last_rev)
  moreover have "\<not> is_space (hd (dropWhile is_space (rev s)))"
    using d by (rule hd_dropWhile)
  ultimately show ?thesis by simp
qed

lemma hd_rstrip: "rstrip s \<noteq> [] \<Longrightarrow> hd (rstrip s) = hd s"
  using rstrip_prefix [of s] by (metis hd_append2)

lemma stripped_strip: "stripped (strip s)"
proof (cases "strip s = []")
  case True
  then show ?thesis by (simp add: stripped_def)
next
  case False
  then have ne: "rstrip (lstrip s) \<noteq> []"
    by (simp add: strip_def)
  then have l: "lstrip s \<noteq> []"
    by (auto simp: rstrip_def)
  then have "\<not> is_space (hd (lstrip s))"
    unfolding lstrip_def by (rule hd_dropWhile)
  then have "\<not> is_space (hd (strip s))"
    using ne by (simp add: strip_def hd_rstrip)
  moreover have "\<not> is_space (last (strip s))"
    using ne by (simp add: strip_def last_rstrip)
  ultimately show ?thesis
    by (simp add: stripped_def)
qed

lemma strip_fixed: "stripped s \<Longrightarrow> strip s = s"
proof (cases s)
  case Nil
  then show ?thesis by (simp add: strip_def lstrip_def rstrip_def)
next
  case (Cons c cs)
  assume "stripped s"
  with Cons have h: "\<not> is_space c" and t: "\<not> is_space (last s)"
    by (simp_all add: stripped_def)
  have "lstrip s = s"
    using Cons h by (simp add: lstrip_def)
  moreover have "rstrip s = s"
  proof -
    obtain x xs where r: "rev s = x # xs"
      using Cons by (cases "rev s") auto
    have "hd (rev s) = last s"
      by (simp add: hd_rev)
    with r have "x = last s"
      by simp
    with t have "dropWhile is_space (x # xs) = x # xs"
      by simp
    with r have "rev (dropWhile is_space (rev s)) = rev (rev s)"
      by simp
    then show ?thesis by (simp add: rstrip_def)
  qed
  ultimately show ?thesis
    by (simp add: strip_def)
qed

lemma collapse_whitespace_fixed:
  "no_blank_lines True s \<Longrightarrow> stripped s \<Longrightarrow> collapse_whitespace s = s"
  by (simp add: collapse_whitespace_def collapse_blank_runs_fixed remove_blank_lines_fixed
      strip_fixed)

lemma collapse_whitespace_clean:
  "no_blank_lines True (collapse_whitespace s) \<and> stripped (collapse_whitespace s)"
  using no_blank_lines_strip [OF no_blank_lines_remove, of True "collapse_blank_runs s"]
  by (simp add: collapse_whitespace_def stripped_strip)

text \<open>
  C8. The whitespace cleanup that follows the removal of broken links (the two
  substitutions and \<open>strip()\<close>) is idempotent: applied to its own result it changes
  nothing. The texts it leaves unchanged are exactly those without blank lines and
  without white space at either end.
\<close>

theorem collapse_whitespace_idempotent:
  "collapse_whitespace (collapse_whitespace s) = collapse_whitespace s
   \<and> (collapse_whitespace t = t \<longleftrightarrow> no_blank_lines True t \<and> stripped t)"
proof
  show "collapse_whitespace (collapse_whitespace s) = collapse_whitespace s"
    by (simp add: collapse_whitespace_fixed collapse_whitespace_clean)
  show "collapse_whitespace t = t \<longleftrightarrow> no_blank_lines True t \<and> stripped t"
    using collapse_whitespace_fixed [of t] collapse_whitespace_clean [of t] by auto
qed

theorem collapse_whitespace_idempotent_witness:
  "collapse_whitespace ([10, 32, 10] @ ascii ''A'' @ [10, 10, 32, 10, 32] @ ascii ''B '' @ [10])
     = ascii ''A'' @ [10, 32] @ ascii ''B''
   \<and> collapse_whitespace (ascii ''A'' @ [10, 32] @ ascii ''B'') = ascii ''A'' @ [10, 32] @ ascii ''B''
   \<and> no_blank_lines True (ascii ''A'' @ [10, 32] @ ascii ''B'')
   \<and> stripped (ascii ''A'' @ [10, 32] @ ascii ''B'')"
proof -
  have e: "collapse_whitespace
      ([10, 32, 10] @ ascii ''A'' @ [10, 10, 32, 10, 32] @ ascii ''B '' @ [10])
     = ascii ''A'' @ [10, 32] @ ascii ''B''"
    by (simp add: collapse_whitespace_def ascii_def newline_def is_space_def
        upto_last_newline_def strip_def lstrip_def rstrip_def)
  have "collapse_whitespace (collapse_whitespace
      ([10, 32, 10] @ ascii ''A'' @ [10, 10, 32, 10, 32] @ ascii ''B '' @ [10]))
     = collapse_whitespace ([10, 32, 10] @ ascii ''A'' @ [10, 10, 32, 10, 32] @ ascii ''B '' @ [10])"
    using collapse_whitespace_idempotent by blast
  then have f: "collapse_whitespace (ascii ''A'' @ [10, 32] @ ascii ''B'')
      = ascii ''A'' @ [10, 32] @ ascii ''B''"
    by (simp only: e)
  then have "no_blank_lines True (ascii ''A'' @ [10, 32] @ ascii ''B'')
      \<and> stripped (ascii ''A'' @ [10, 32] @ ascii ''B'')"
    using collapse_whitespace_idempotent [of _ "ascii ''A'' @ [10, 32] @ ascii ''B''"] by blast
  then show ?thesis
    using e f by blast
qed

section \<open>Properties of the link verification\<close>

lemma link_works_iff:
  "link_works base_url outcome url \<longleftrightarrow>
     startswith url (base_url @ ascii ''/data/'')
     \<or> (\<exists>status_code. outcome = Head_status status_code \<and> status_code < 400)"
  by (cases outcome) (simp_all add: link_works_def)

lemma two_paragraph_links:
  "find_links two_paragraph_report = [(ascii ''x'', ascii ''http://bad'')]"
  by (simp add: two_paragraph_report_def ascii_def match_link_def Let_def bracket_open_def
      bracket_close_def paren_open_def paren_close_def)

lemma two_paragraph_checked:
  "check_links (ascii ''https://maclay.pro'') (\<lambda>i. Head_status 404)
     [(ascii ''x'', ascii ''http://bad'')] = [((ascii ''x'', ascii ''http://bad''), False)]"
  by (simp add: check_links_def link_works_def ascii_def)

lemma two_paragraph_removed:
  "remove_all (markdown_span (ascii ''x'', ascii ''http://bad'')) two_paragraph_report
     = ascii ''A'' @ [10, 10] @ ascii ''B ''"
  by (simp add: two_paragraph_report_def markdown_span_def ascii_def bracket_open_def
      bracket_close_def paren_open_def paren_close_def)

lemma two_paragraph_cleaned:
  "collapse_whitespace (ascii ''A'' @ [10, 10] @ ascii ''B '') = ascii ''A'' @ [10] @ ascii ''B''"
  by (simp add: collapse_whitespace_def ascii_def newline_def is_space_def
      upto_last_newline_def strip_def lstrip_def rstrip_def)

text \<open>
  C6. The claim says that, after the broken links are removed, runs of several blank
  lines are collapsed and leading blank lines are removed. \<open>verify_report_links\<close> does
  more: its second substitution, \<open>^\s*\n\<close> with \<open>re.MULTILINE\<close>, deletes every blank line.
  For the report of two paragraphs \<open>A\<close> and \<open>B [x](http://bad)\<close>, separated by one blank
  line, whose link is answered with status 404, it returns \<open>A\<close> and \<open>B\<close> on two
  consecutive lines: the blank line between the paragraphs is gone.
\<close>

theorem verify_report_links_drops_paragraph_break:
  "verify_report_links (ascii ''https://maclay.pro'') (\<lambda>i. Head_status 404) template
     two_paragraph_report = ascii ''A'' @ [10] @ ascii ''B''"
  using two_paragraph_links two_paragraph_checked two_paragraph_removed two_paragraph_cleaned
  by (simp add: verify_report_links_def Let_def ascii_def two_paragraph_report_def)

end
